theory Spec2Isabelle
  imports Main
begin

section \<open>Live session registry and multilingual fan-out (server/routes, server/openai, server/storage)\<close>

text \<open>
  The WebSocket part of \<open>registerRoutes\<close> (src/unnamed/part_002), the three OpenAI
  wrappers (src/unnamed/part_003) and the \<open>MemStorage\<close> methods they use
  (src/unnamed/part_004) as state-passing functions.

  Conventions of the embedding.
  \<^item> A transport (\<open>ws\<close> object) is a handle of type \<open>wsid\<close>; its \<open>readyState\<close> is
    kept in the field \<open>sockets\<close> of the state.
  \<^item> Everything the server does to the outside world is appended to \<open>trace\<close>, in
    program order: calls of \<open>ws.send\<close> and \<open>ws.close\<close>, calls of the external
    transcription, translation and synthesis services, and record creation in the store.
  \<^item> The external services are oracles of the environment. Their outcome may differ
    from call to call, so every oracle also takes the number of service calls made so far
    (\<open>calls\<close>). \<open>Inl m\<close> is a thrown error with message \<open>m\<close>.
  \<^item> A decoded inbound message carries its fields with the types of the message
    interface; a JavaScript \<open>||\<close> default is written out on the \<open>option\<close>.
  \<^item> One handler invocation runs without another handler interleaving. The registry
    part of every handler is synchronous in the source, so this is exact for the registry;
    for the audio pipeline it means that the registry does not change during one segment.
\<close>

subsection \<open>JavaScript values\<close>

text \<open>The result of \<open>parseInt\<close>: a number or \<open>NaN\<close>.\<close>

datatype jsnum = NaN | Num int

text \<open>Truthiness of a number: \<open>0\<close> and \<open>NaN\<close> are falsy.\<close>

fun truthy :: "jsnum \<Rightarrow> bool" where
  "truthy NaN = False"
| "truthy (Num i) = (i \<noteq> 0)"

text \<open>\<open>x || d\<close> on a string field that may be absent: absent and \<open>""\<close> are falsy.\<close>

fun or_else :: "string option \<Rightarrow> string \<Rightarrow> string" where
  "or_else None d = d"
| "or_else (Some s) d = (if s = [] then d else s)"

text \<open>
  White space and line terminators removed by \<open>String.prototype.trim\<close>, within the
  code points a \<open>char\<close> can hold: TAB, LF, VT, FF, CR, SP, NBSP.
\<close>

definition js_space :: "char \<Rightarrow> bool" where
  "js_space c = (of_char c \<in> {9, 10, 11, 12, 13, 32, 160 :: nat})"

text \<open>\<open>!s || s.trim().length === 0\<close>\<close>

definition blank :: "string \<Rightarrow> bool" where
  "blank s = (s = [] \<or> list_all js_space s)"

text \<open>\<open>toLowerCase\<close> on the code points a \<open>char\<close> can hold.\<close>

definition lower_char :: "char \<Rightarrow> char" where
  "lower_char c =
     (let n = (of_char c :: nat)
      in if (65 \<le> n \<and> n \<le> 90) \<or> (192 \<le> n \<and> n \<le> 214) \<or> (216 \<le> n \<and> n \<le> 222)
         then char_of (n + 32) else c)"

definition toLowerCase :: "string \<Rightarrow> string" where
  "toLowerCase s = map lower_char s"

text \<open>\<open>Array.prototype.findIndex\<close>; \<open>None\<close> is the source's \<open>-1\<close>.\<close>

fun findIndex :: "('a \<Rightarrow> bool) \<Rightarrow> 'a list \<Rightarrow> nat option" where
  "findIndex P [] = None"
| "findIndex P (x # xs) =
     (if P x then Some 0 else map_option Suc (findIndex P xs))"

text \<open>\<open>xs.splice(i, 1)\<close>\<close>

definition splice1 :: "nat \<Rightarrow> 'a list \<Rightarrow> 'a list" where
  "splice1 i xs = take i xs @ drop (Suc i) xs"

text \<open>\<open>Array.from(new Set(xs))\<close>: first occurrences, in insertion order.\<close>

definition uniq :: "'a list \<Rightarrow> 'a list" where
  "uniq xs = rev (remdups (rev xs))"

subsection \<open>Records of the store (shared/schema) and MemStorage\<close>

text \<open>
  An event row; the handlers only test that it exists and forward it, so the descriptive
  columns other than the name are left out.
\<close>

record Event =
  ev_id :: int
  ev_name :: string
  organizerId :: int

record Participant =
  p_id :: nat
  p_eventId :: jsnum
  p_sessionId :: string
  p_language :: string
  p_createdAt :: nat

record InsertTranslation =
  eventId :: jsnum
  originalText :: string
  translatedText :: "string option"
  tr_language :: string

record Translation = InsertTranslation +
  tr_id :: nat
  timestamp :: nat

text \<open>
  The maps of \<open>MemStorage\<close> are keyed by a counter that only grows, so their values in
  insertion order are lists.
\<close>

record MemStorage =
  events :: "int \<rightharpoonup> Event"
  participants :: "Participant list"
  translationsMap :: "Translation list"
  eventCurrentId :: nat
  participantCurrentId :: nat
  translationCurrentId :: nat

text \<open>
  The environment: \<open>nanoid()\<close>, \<open>new Date()\<close> at the creation of the row with a
  given id, the size of a decoded base64 payload, and the three external services.
\<close>

record env =
  nanoid :: "nat \<Rightarrow> string"
  participant_time :: "nat \<Rightarrow> nat"
  translation_time :: "nat \<Rightarrow> nat"
  decoded_length :: "string \<Rightarrow> nat"
  whisper :: "nat \<Rightarrow> string \<Rightarrow> string + string"
  chat :: "nat \<Rightarrow> string \<Rightarrow> string \<Rightarrow> string + string option list"
  speech :: "nat \<Rightarrow> string \<Rightarrow> string \<Rightarrow> string + string"

text \<open>\<open>createEvent\<close> and \<open>deleteEvent\<close>, behind the routes of \<open>/api/events\<close>.\<close>

definition createEvent :: "string \<Rightarrow> int \<Rightarrow> MemStorage \<Rightarrow> MemStorage" where
  "createEvent name organizer s =
     s\<lparr>events := (events s)(int (eventCurrentId s) \<mapsto>
                     \<lparr>ev_id = int (eventCurrentId s), ev_name = name, organizerId = organizer\<rparr>),
       eventCurrentId := Suc (eventCurrentId s)\<rparr>"

definition deleteEvent :: "jsnum \<Rightarrow> MemStorage \<Rightarrow> MemStorage" where
  "deleteEvent k s = (case k of NaN \<Rightarrow> s | Num i \<Rightarrow> s\<lparr>events := (events s)(i := None)\<rparr>)"

definition getEvent :: "MemStorage \<Rightarrow> jsnum \<Rightarrow> Event option" where
  "getEvent s k = (case k of NaN \<Rightarrow> None | Num i \<Rightarrow> events s i)"

definition getParticipantBySessionId :: "MemStorage \<Rightarrow> string \<Rightarrow> Participant option" where
  "getParticipantBySessionId s sid = find (\<lambda>p. p_sessionId p = sid) (participants s)"

definition createParticipant ::
  "env \<Rightarrow> jsnum \<Rightarrow> string \<Rightarrow> string \<Rightarrow> MemStorage \<Rightarrow> MemStorage" where
  "createParticipant e k sid lang s =
     s\<lparr>participants := participants s @
          [\<lparr>p_id = participantCurrentId s, p_eventId = k, p_sessionId = sid,
            p_language = lang,
            p_createdAt = participant_time e (participantCurrentId s)\<rparr>],
       participantCurrentId := Suc (participantCurrentId s)\<rparr>"

text \<open>\<open>updateParticipant(id, { language })\<close>\<close>

definition updateParticipant :: "nat \<Rightarrow> string \<Rightarrow> MemStorage \<Rightarrow> MemStorage" where
  "updateParticipant i lang s =
     s\<lparr>participants :=
          map (\<lambda>p. if p_id p = i then p\<lparr>p_language := lang\<rparr> else p) (participants s)\<rparr>"

definition createTranslation ::
  "env \<Rightarrow> InsertTranslation \<Rightarrow> MemStorage \<Rightarrow> Translation \<times> MemStorage" where
  "createTranslation e ins s =
     (let tr = \<lparr>eventId = eventId ins, originalText = originalText ins,
                translatedText = translatedText ins, tr_language = tr_language ins,
                tr_id = translationCurrentId s,
                timestamp = translation_time e (translationCurrentId s)\<rparr>
      in (tr, s\<lparr>translationsMap := translationsMap s @ [tr],
                translationCurrentId := Suc (translationCurrentId s)\<rparr>))"

text \<open>
  \<open>getRecentTranslations\<close>: the event's records, newest first (the sort is stable), the
  first \<open>limit\<close> of them.
\<close>

definition getRecentTranslations :: "MemStorage \<Rightarrow> jsnum \<Rightarrow> nat \<Rightarrow> Translation list" where
  "getRecentTranslations s k limit =
     take limit (sort_key (\<lambda>t. - int (timestamp t))
                   (filter (\<lambda>t. eventId t = k) (translationsMap s)))"

subsection \<open>The external services (server/openai)\<close>

text \<open>\<open>error.message || "Unknown error"\<close>\<close>

definition message_or_unknown :: "string \<Rightarrow> string" where
  "message_or_unknown m = (if m = [] then ''Unknown error'' else m)"

text \<open>
  \<open>transcribeAudio\<close>. \<open>decoded_length\<close> is the size of \<open>Buffer.from(audioBase64,
  'base64')\<close>; under 100 bytes the service is not called. A failure of the staging file or
  of the service reaches the outer \<open>catch\<close>, which wraps its message. The Boolean says
  whether the service was called.
\<close>

definition transcribeAudio :: "env \<Rightarrow> nat \<Rightarrow> string \<Rightarrow> bool \<times> (string + string)" where
  "transcribeAudio e n audioBase64 =
     (if decoded_length e audioBase64 < 100 then (False, Inr [])
      else (True,
        (case whisper e n audioBase64 of
           Inr text \<Rightarrow> Inr text
         | Inl m \<Rightarrow> Inl (''Failed to transcribe audio: '' @ message_or_unknown m))))"

text \<open>
  \<open>translateText\<close>. The service answers with the list of \<open>choices\<close>, each holding its
  \<open>message.content\<close> (nullable). Reading \<open>choices[0].message\<close> of an empty list throws
  inside the \<open>try\<close>.
\<close>

definition translateText :: "env \<Rightarrow> nat \<Rightarrow> string \<Rightarrow> string \<Rightarrow> string + string" where
  "translateText e n text targetLanguage =
     (case chat e n text targetLanguage of
        Inl m \<Rightarrow> Inl (''Failed to translate text: '' @ message_or_unknown m)
      | Inr [] \<Rightarrow>
          Inl (''Failed to translate text: '' @
               ''Cannot read properties of undefined (reading 'message')'')
      | Inr (content # _) \<Rightarrow> Inr (or_else content text))"

text \<open>\<open>generateSpeech\<close>: the \<open>language\<close> argument is not passed on to the service.\<close>

definition generateSpeech :: "env \<Rightarrow> nat \<Rightarrow> string \<Rightarrow> string \<Rightarrow> string \<Rightarrow> string + string" where
  "generateSpeech e n text voice lang =
     (case speech e n voice text of
        Inr audio \<Rightarrow> Inr audio
      | Inl m \<Rightarrow> Inl (''Failed to generate speech: '' @ message_or_unknown m))"

subsection \<open>Connections, messages, state\<close>

type_synonym wsid = nat

datatype readyState = CONNECTING | OPEN | CLOSING | CLOSED

record EventConnection =
  ws :: wsid
  language :: string
  sessionId :: string
  enableAudio :: bool
  isOrganizer :: bool

text \<open>The variables each connection handler closes over.\<close>

record conn_vars =
  v_sessionId :: string
  v_eventId :: jsnum
  v_language :: string
  v_enableAudio :: bool

definition initial_vars :: conn_vars where
  "initial_vars = \<lparr>v_sessionId = [], v_eventId = Num 0, v_language = ''English'',
                   v_enableAudio = False\<rparr>"

text \<open>
  The \<open>audioBase64\<close> field of an \<open>audio_data\<close> message: absent or otherwise falsy
  (\<open>AudioAbsent\<close>, and the string \<open>""\<close>), truthy but not a string
  (\<open>AudioNotString\<close>), or a string.
\<close>

datatype audio_field = AudioAbsent | AudioNotString | AudioString string

text \<open>
  Inbound messages after \<open>JSON.parse\<close>. An \<open>eventId\<close> field is \<open>None\<close> when the raw
  field is falsy and \<open>Some k\<close> when it is truthy and \<open>parseInt\<close> of it is \<open>k\<close> (which
  can still be \<open>NaN\<close> or \<open>0\<close>, as for \<open>"abc"\<close> and \<open>"0x0"\<close>).
\<close>

datatype inbound =
    Join "jsnum option" "string option" "string option" "bool option" "bool option"
  | UpdateLanguage string
  | ToggleAudio bool
  | AudioData "jsnum option" audio_field
  | InvalidJson
  | OtherType

datatype error_message =
    InvalidFormat
  | MissingEventIdInJoin
  | MissingEventIdOrAudio
  | AudioMustBeString
  | EventNotFound jsnum
  | OnlyOrganizers
  | Failure string

datatype status = StProcessing | StSkipped | StTranscribed | StComplete

datatype status_message =
    AudioReceived
  | ChunkTooSmall
  | NoSpeechDetected
  | TranscribedOk
  | ProcessingComplete nat nat

record details =
  successfulTranslations :: nat
  failedTranslations :: nat
  totalLanguages :: nat

datatype outbound =
    ConnectionEstablished
  | ErrorMsg error_message
  | RecentTranslations "Translation list"
  | EventInfo Event
  | SessionJoined string jsnum string bool
  | ParticipantCount nat
  | ProcessingStatus status status_message "string option" "details option"
  | TranslationMsg Translation string string
  | AudioTranslation string string

datatype effect =
    Send wsid outbound
  | Close wsid
  | Transcribe string
  | TranslateCall string string
  | Synthesize string string string
  | Stored Translation

record state =
  activeConnections :: "jsnum \<rightharpoonup> EventConnection list"
  sockets :: "wsid \<Rightarrow> readyState"
  vars :: "wsid \<Rightarrow> conn_vars"
  storage :: MemStorage
  trace :: "effect list"
  calls :: nat
  ids :: nat

definition emit :: "effect \<Rightarrow> state \<Rightarrow> state" where
  "emit x st = st\<lparr>trace := trace st @ [x]\<rparr>"

text \<open>
  \<open>ws.send(JSON.stringify(m))\<close>. The call is recorded; the transport delivers it when
  the socket is \<open>OPEN\<close> and drops it otherwise (a server-side socket is never
  \<open>CONNECTING\<close>, the one state in which \<open>send\<close> throws).
\<close>

definition send :: "wsid \<Rightarrow> outbound \<Rightarrow> state \<Rightarrow> state" where
  "send w m st = emit (Send w m) st"

text \<open>\<open>activeConnections.get(k) || []\<close>\<close>

definition connections_of :: "state \<Rightarrow> jsnum \<Rightarrow> EventConnection list" where
  "connections_of st k = (case activeConnections st k of None \<Rightarrow> [] | Some g \<Rightarrow> g)"

subsection \<open>The registry part of the handlers\<close>

text \<open>\<open>ws.close()\<close> on an open socket starts the closing handshake.\<close>

definition close_ws :: "wsid \<Rightarrow> state \<Rightarrow> state" where
  "close_ws w st = emit (Close w) (st\<lparr>sockets := (sockets st)(w := CLOSING)\<rparr>)"

text \<open>\<open>data.sessionId || nanoid()\<close>\<close>

definition resolve_session :: "env \<Rightarrow> string option \<Rightarrow> state \<Rightarrow> string \<times> state" where
  "resolve_session e sid st =
     (case sid of
        None \<Rightarrow> (nanoid e (ids st), st\<lparr>ids := Suc (ids st)\<rparr>)
      | Some s \<Rightarrow> if s = [] then (nanoid e (ids st), st\<lparr>ids := Suc (ids st)\<rparr>) else (s, st))"

text \<open>Lines 105 to 108: the group is created on the first join to the event.\<close>

definition ensure_group :: "jsnum \<Rightarrow> state \<Rightarrow> state" where
  "ensure_group k st =
     (if activeConnections st k = None
      then st\<lparr>activeConnections := (activeConnections st)(k \<mapsto> [])\<rparr> else st)"

text \<open>
  Lines 110 to 122: an entry of the same session is looked up; its transport is closed
  when open, and the entry is spliced out of the group.
\<close>

definition join_supersede :: "jsnum \<Rightarrow> string \<Rightarrow> state \<Rightarrow> state" where
  "join_supersede k sid st =
     (let connections = connections_of st k
      in case findIndex (\<lambda>c. sessionId c = sid) connections of
           None \<Rightarrow> st
         | Some i \<Rightarrow>
             (let oldConnection = connections ! i;
                  st1 = (if sockets st (ws oldConnection) = OPEN
                         then close_ws (ws oldConnection) st else st)
              in st1\<lparr>activeConnections :=
                       (activeConnections st1)(k \<mapsto> splice1 i connections)\<rparr>))"

text \<open>Lines 124 to 131: \<open>activeConnections.get(eventId)?.push(entry)\<close>\<close>

definition join_register :: "jsnum \<Rightarrow> EventConnection \<Rightarrow> state \<Rightarrow> state" where
  "join_register k c st =
     (case activeConnections st k of
        None \<Rightarrow> st
      | Some g \<Rightarrow> st\<lparr>activeConnections := (activeConnections st)(k \<mapsto> g @ [c])\<rparr>)"

text \<open>Lines 135 to 151: a participant row is created at the first join of a session.\<close>

definition join_participant :: "env \<Rightarrow> jsnum \<Rightarrow> string \<Rightarrow> string \<Rightarrow> state \<Rightarrow> state" where
  "join_participant e k sid lang st =
     (case getParticipantBySessionId (storage st) sid of
        None \<Rightarrow> st\<lparr>storage := createParticipant e k sid lang (storage st)\<rparr>
      | Some _ \<Rightarrow> st)"

text \<open>The loop that pushes \<open>participant_count\<close> to the open connections of a group.\<close>

fun broadcast_count :: "nat \<Rightarrow> EventConnection list \<Rightarrow> state \<Rightarrow> state" where
  "broadcast_count n [] st = st"
| "broadcast_count n (c # cs) st =
     broadcast_count n cs
       (if sockets st (ws c) = OPEN then send (ws c) (ParticipantCount n) st else st)"

text \<open>
  Lines 95 to 131, the synchronous part of a join: the handler variables are assigned,
  then the group is created if needed, an entry of the same session is superseded, and
  the new entry is pushed.
\<close>

definition join_registry ::
  "wsid \<Rightarrow> jsnum \<Rightarrow> string \<Rightarrow> string \<Rightarrow> bool \<Rightarrow> bool \<Rightarrow> state \<Rightarrow> state" where
  "join_registry w k sid lang audio org st =
     join_register k
       \<lparr>ws = w, language = lang, sessionId = sid, enableAudio = audio, isOrganizer = org\<rparr>
       (join_supersede k sid
          (ensure_group k
             (st\<lparr>vars := (vars st)(w :=
                   \<lparr>v_sessionId = sid, v_eventId = k, v_language = lang,
                    v_enableAudio = audio\<rparr>)\<rparr>)))"

text \<open>
  Lines 134 to 214: the participant row, then the replies to the joining connection and
  the count to the group.
\<close>

definition join_replies ::
  "env \<Rightarrow> wsid \<Rightarrow> jsnum \<Rightarrow> string \<Rightarrow> string \<Rightarrow> bool \<Rightarrow> state \<Rightarrow> state" where
  "join_replies e w k sid lang org st =
     (let st1 = (if org then st else join_participant e k sid lang st);
          st2 = send w (RecentTranslations (getRecentTranslations (storage st1) k 10)) st1;
          st3 = send w (case getEvent (storage st2) k of
                          Some ev \<Rightarrow> EventInfo ev
                        | None \<Rightarrow> ErrorMsg (EventNotFound k)) st2;
          st4 = send w (SessionJoined sid k lang org) st3;
          participantConnections = connections_of st4 k
      in broadcast_count
           (length (filter (\<lambda>c. \<not> isOrganizer c) participantConnections))
           participantConnections st4)"

text \<open>\<open>x || false\<close> on a Boolean field that may be absent.\<close>

fun or_false :: "bool option \<Rightarrow> bool" where
  "or_false None = False"
| "or_false (Some b) = b"

text \<open>
  \<open>case 'join'\<close>. A missing event identifier throws before anything is assigned; the
  outer \<open>catch\<close> replies with the error.
\<close>

definition handle_join ::
  "env \<Rightarrow> wsid \<Rightarrow> jsnum option \<Rightarrow> string option \<Rightarrow> string option \<Rightarrow> bool option \<Rightarrow> bool option
     \<Rightarrow> state \<Rightarrow> state" where
  "handle_join e w eid sid lang audio org st =
     (case eid of
        None \<Rightarrow> send w (ErrorMsg MissingEventIdInJoin) st
      | Some k \<Rightarrow>
          (case resolve_session e sid st of
             (sid', st0) \<Rightarrow>
               join_replies e w k sid' (or_else lang ''English'') (or_false org)
                 (join_registry w k sid' (or_else lang ''English'') (or_false audio)
                    (or_false org) st0)))"

text \<open>\<open>case 'update_language'\<close>\<close>

definition handle_update_language :: "wsid \<Rightarrow> string \<Rightarrow> state \<Rightarrow> state" where
  "handle_update_language w lang st =
     (let st1 = st\<lparr>vars := (vars st)(w := (vars st w)\<lparr>v_language := lang\<rparr>)\<rparr>;
          k = v_eventId (vars st1 w);
          sid = v_sessionId (vars st1 w);
          st2 = (case activeConnections st1 k of
                   None \<Rightarrow> st1
                 | Some connections \<Rightarrow>
                     (case findIndex (\<lambda>c. sessionId c = sid) connections of
                        None \<Rightarrow> st1
                      | Some i \<Rightarrow>
                          st1\<lparr>activeConnections := (activeConnections st1)(k \<mapsto>
                                 connections[i := (connections ! i)\<lparr>language := lang\<rparr>])\<rparr>))
      in case getParticipantBySessionId (storage st2) sid of
           None \<Rightarrow> st2
         | Some p \<Rightarrow> st2\<lparr>storage := updateParticipant (p_id p) lang (storage st2)\<rparr>)"

text \<open>\<open>case 'toggle_audio'\<close>\<close>

definition handle_toggle_audio :: "wsid \<Rightarrow> bool \<Rightarrow> state \<Rightarrow> state" where
  "handle_toggle_audio w b st =
     (let st1 = st\<lparr>vars := (vars st)(w := (vars st w)\<lparr>v_enableAudio := b\<rparr>)\<rparr>;
          k = v_eventId (vars st1 w);
          sid = v_sessionId (vars st1 w)
      in case activeConnections st1 k of
           None \<Rightarrow> st1
         | Some connections \<Rightarrow>
             (case findIndex (\<lambda>c. sessionId c = sid) connections of
                None \<Rightarrow> st1
              | Some i \<Rightarrow>
                  st1\<lparr>activeConnections := (activeConnections st1)(k \<mapsto>
                         connections[i := (connections ! i)\<lparr>enableAudio := b\<rparr>])\<rparr>))"

text \<open>
  \<open>ws.on('close')\<close>: the entries of the connection's session are filtered out of the
  group of its event; a group left empty is deleted, otherwise the count is pushed to the
  remaining connections. A falsy event identifier (\<open>0\<close>, \<open>NaN\<close>) skips the removal.
\<close>

definition on_close :: "wsid \<Rightarrow> state \<Rightarrow> state" where
  "on_close w st =
     (let st0 = st\<lparr>sockets := (sockets st)(w := CLOSED)\<rparr>;
          k = v_eventId (vars st0 w);
          sid = v_sessionId (vars st0 w)
      in if truthy k \<and> activeConnections st0 k \<noteq> None then
           (let connections = connections_of st0 k;
                updatedConnections = filter (\<lambda>c. sessionId c \<noteq> sid) connections
            in if length updatedConnections > 0 then
                 broadcast_count
                   (length (filter (\<lambda>c. \<not> isOrganizer c) updatedConnections))
                   updatedConnections
                   (st0\<lparr>activeConnections := (activeConnections st0)(k \<mapsto> updatedConnections)\<rparr>)
               else st0\<lparr>activeConnections := (activeConnections st0)(k := None)\<rparr>)
         else st0)"

text \<open>\<open>wss.on('connection')\<close>: fresh handler variables and the acknowledgment.\<close>

definition on_connection :: "wsid \<Rightarrow> state \<Rightarrow> state" where
  "on_connection w st =
     send w ConnectionEstablished
       (st\<lparr>sockets := (sockets st)(w := OPEN), vars := (vars st)(w := initial_vars)\<rparr>)"

subsection \<open>The segment pipeline (\<open>case 'audio_data'\<close>)\<close>

text \<open>A call of the transcription wrapper; the service call, when made, is traced.\<close>

definition call_transcribe :: "env \<Rightarrow> string \<Rightarrow> state \<Rightarrow> (string + string) \<times> state" where
  "call_transcribe e audioBase64 st =
     (case transcribeAudio e (calls st) audioBase64 of
        (called, r) \<Rightarrow>
          (r, if called then (emit (Transcribe audioBase64) st)\<lparr>calls := Suc (calls st)\<rparr>
              else st))"

definition call_speech ::
  "env \<Rightarrow> string \<Rightarrow> string \<Rightarrow> string \<Rightarrow> state \<Rightarrow> (string + string) \<times> state" where
  "call_speech e text voice lang st =
     (generateSpeech e (calls st) text voice lang,
      (emit (Synthesize text voice lang) st)\<lparr>calls := Suc (calls st)\<rparr>)"

text \<open>\<open>await storage.createTranslation(...)\<close>, traced.\<close>

definition store_translation ::
  "env \<Rightarrow> InsertTranslation \<Rightarrow> state \<Rightarrow> Translation \<times> state" where
  "store_translation e ins st =
     (case createTranslation e ins (storage st) of
        (tr, s) \<Rightarrow> (tr, emit (Stored tr) (st\<lparr>storage := s\<rparr>)))"

text \<open>Lines 363 to 376: the original text goes to the open English connections.\<close>

fun send_original :: "Translation \<Rightarrow> string \<Rightarrow> EventConnection list \<Rightarrow> state \<Rightarrow> state" where
  "send_original tr transcription [] st = st"
| "send_original tr transcription (client # rest) st =
     send_original tr transcription rest
       (if sockets st (ws client) = OPEN
        then send (ws client) (TranslationMsg tr transcription ''English'') st
        else st)"

text \<open>
  Lines 400 to 423, the body of the loop over the connections of a language: an open
  connection gets the text; when its audio flag is set, speech is generated for it and
  sent. An error of the synthesis is caught inside the loop body.
\<close>

definition deliver_to_client ::
  "env \<Rightarrow> Translation \<Rightarrow> string \<Rightarrow> string \<Rightarrow> string \<Rightarrow> EventConnection \<Rightarrow> state \<Rightarrow> state"
where
  "deliver_to_client e tr transcription translated targetLanguage client st =
     (if sockets st (ws client) = OPEN then
        (let st1 = send (ws client) (TranslationMsg tr transcription ''English'') st
         in if enableAudio client then
              (case call_speech e translated ''nova''
                      (toLowerCase (take 2 targetLanguage)) st1 of
                 (Inr audioBase64, st2) \<Rightarrow>
                   send (ws client) (AudioTranslation audioBase64 translated) st2
               | (Inl _, st2) \<Rightarrow> st2)
            else st1)
      else st)"

text \<open>Line 399: the loop.\<close>

fun deliver_translation ::
  "env \<Rightarrow> Translation \<Rightarrow> string \<Rightarrow> string \<Rightarrow> string \<Rightarrow> EventConnection list \<Rightarrow> state \<Rightarrow> state"
where
  "deliver_translation e tr transcription translated targetLanguage [] st = st"
| "deliver_translation e tr transcription translated targetLanguage (client # rest) st =
     deliver_translation e tr transcription translated targetLanguage rest
       (deliver_to_client e tr transcription translated targetLanguage client st)"

text \<open>
  Lines 379 to 384. Mapping the \<open>async\<close> function over the target languages runs each
  job up to its first \<open>await\<close>: all translation calls are issued, in list order, before
  any job continues. \<open>translate_all\<close> pairs each language with the outcome of its call.
\<close>

fun translate_all ::
  "env \<Rightarrow> nat \<Rightarrow> string \<Rightarrow> string list \<Rightarrow> (string \<times> (string + string)) list" where
  "translate_all e n transcription [] = []"
| "translate_all e n transcription (l # ls) =
     (l, translateText e n transcription l) # translate_all e (Suc n) transcription ls"

definition start_translations ::
  "env \<Rightarrow> string \<Rightarrow> string list \<Rightarrow> state \<Rightarrow> (string \<times> (string + string)) list \<times> state" where
  "start_translations e transcription targets st =
     (translate_all e (calls st) transcription targets,
      st\<lparr>trace := trace st @ map (TranslateCall transcription) targets,
         calls := calls st + length targets\<rparr>)"

record job_result =
  job_language :: string
  success :: bool
  job_error :: "string option"

text \<open>
  Lines 386 to 430: the rest of one language job, once its translation call has settled.
  A failed translation is caught and returned as a result. \<open>MemStorage\<close> never
  throws, so the translation call is the only step of a job that can fail it.
\<close>

definition language_job ::
  "env \<Rightarrow> jsnum \<Rightarrow> string \<Rightarrow> EventConnection list \<Rightarrow> string \<times> (string + string) \<Rightarrow> state
     \<Rightarrow> job_result \<times> state" where
  "language_job e k transcription eventConnections job st =
     (case job of
        (targetLanguage, Inl m) \<Rightarrow>
          (\<lparr>job_language = targetLanguage, success = False, job_error = Some m\<rparr>, st)
      | (targetLanguage, Inr translated) \<Rightarrow>
          (case store_translation e
                  \<lparr>eventId = k, originalText = transcription,
                   translatedText = Some translated, tr_language = targetLanguage\<rparr> st of
             (translationRecord, st1) \<Rightarrow>
               (\<lparr>job_language = targetLanguage, success = True, job_error = None\<rparr>,
                deliver_translation e translationRecord transcription translated targetLanguage
                  (filter (\<lambda>c. language c = targetLanguage) eventConnections) st1)))"

text \<open>
  \<open>Promise.allSettled\<close>: every job runs to its end whatever the others do. The jobs
  continue here one after the other in list order; in the source their continuations may
  interleave, each keeping its own order of effects.
\<close>

fun settle_jobs ::
  "env \<Rightarrow> jsnum \<Rightarrow> string \<Rightarrow> EventConnection list \<Rightarrow> (string \<times> (string + string)) list \<Rightarrow> state
     \<Rightarrow> job_result list \<times> state" where
  "settle_jobs e k transcription eventConnections [] st = ([], st)"
| "settle_jobs e k transcription eventConnections (job # jobs) st =
     (case language_job e k transcription eventConnections job st of
        (r, st1) \<Rightarrow>
          (case settle_jobs e k transcription eventConnections jobs st1 of
             (rs, st2) \<Rightarrow> (r # rs, st2)))"

text \<open>Lines 337 to 450: from the source-language record to the completion status.\<close>

definition fan_out :: "env \<Rightarrow> wsid \<Rightarrow> jsnum \<Rightarrow> string \<Rightarrow> state \<Rightarrow> state" where
  "fan_out e w k transcription st =
     (case store_translation e
             \<lparr>eventId = k, originalText = transcription, translatedText = None,
              tr_language = ''English''\<rparr> st of
        (translation, st1) \<Rightarrow>
          (let st2 = send w (ProcessingStatus StTranscribed TranscribedOk
                               (Some transcription) None) st1;
               eventConnections = connections_of st2 k;
               uniqueLanguages = uniq (map language eventConnections);
               st3 = send_original translation transcription
                       (filter (\<lambda>c. language c = ''English'') eventConnections) st2
           in case start_translations e transcription
                     (filter (\<lambda>lang. lang \<noteq> ''English'') uniqueLanguages) st3 of
                (jobs, st4) \<Rightarrow>
                  (case settle_jobs e k transcription eventConnections jobs st4 of
                     (translationResults, st5) \<Rightarrow>
                       (let successfulTranslations = length (filter success translationResults);
                            failedTranslations =
                              length (filter (\<lambda>r. \<not> success r) translationResults)
                        in send w (ProcessingStatus StComplete
                                     (ProcessingComplete successfulTranslations failedTranslations)
                                     (Some transcription)
                                     (Some \<lparr>successfulTranslations = successfulTranslations,
                                            failedTranslations = failedTranslations,
                                            totalLanguages = length uniqueLanguages\<rparr>)) st5))))"

text \<open>
  Lines 302 to 335 and 452 to 483: the size check, the acknowledgment, the transcription
  and the test for an empty result. An error of the transcription is caught and reported
  to the sender.
\<close>

definition process_audio :: "env \<Rightarrow> wsid \<Rightarrow> jsnum \<Rightarrow> string \<Rightarrow> state \<Rightarrow> state" where
  "process_audio e w k audioBase64 st =
     (if length audioBase64 < 50
      then send w (ProcessingStatus StSkipped ChunkTooSmall None None) st
      else
        (case call_transcribe e audioBase64
                (send w (ProcessingStatus StProcessing AudioReceived None None) st) of
           (Inl m, st1) \<Rightarrow> send w (ErrorMsg (Failure m)) st1
         | (Inr transcription, st1) \<Rightarrow>
             if blank transcription
             then send w (ProcessingStatus StComplete NoSpeechDetected None None) st1
             else fan_out e w k transcription st1))"

text \<open>Line 291: the sender's entry is looked up by its session in the message's event.\<close>

definition senderConnection :: "state \<Rightarrow> jsnum \<Rightarrow> string \<Rightarrow> EventConnection option" where
  "senderConnection st k sid =
     (case activeConnections st k of
        None \<Rightarrow> None
      | Some g \<Rightarrow> find (\<lambda>c. sessionId c = sid) g)"

text \<open>\<open>!senderConnection?.isOrganizer\<close>\<close>

definition authorized :: "state \<Rightarrow> jsnum \<Rightarrow> string \<Rightarrow> bool" where
  "authorized st k sid =
     (case senderConnection st k sid of None \<Rightarrow> False | Some c \<Rightarrow> isOrganizer c)"

text \<open>Lines 253 to 299: the checks of an \<open>audio_data\<close> message, in the source's order.\<close>

definition handle_audio_data :: "env \<Rightarrow> wsid \<Rightarrow> jsnum option \<Rightarrow> audio_field \<Rightarrow> state \<Rightarrow> state" where
  "handle_audio_data e w eid audio st =
     (case eid of
        None \<Rightarrow> send w (ErrorMsg MissingEventIdOrAudio) st
      | Some k \<Rightarrow>
          (case audio of
             AudioAbsent \<Rightarrow> send w (ErrorMsg MissingEventIdOrAudio) st
           | AudioNotString \<Rightarrow> send w (ErrorMsg AudioMustBeString) st
           | AudioString audioBase64 \<Rightarrow>
               if audioBase64 = [] then send w (ErrorMsg MissingEventIdOrAudio) st
               else if getEvent (storage st) k = None
               then send w (ErrorMsg (EventNotFound k)) st
               else if \<not> authorized st k (v_sessionId (vars st w))
               then send w (ErrorMsg OnlyOrganizers) st
               else process_audio e w k audioBase64 st))"

subsection \<open>The server as a transition system\<close>

text \<open>\<open>ws.on('message')\<close>\<close>

fun on_message :: "env \<Rightarrow> wsid \<Rightarrow> inbound \<Rightarrow> state \<Rightarrow> state" where
  "on_message e w InvalidJson st = send w (ErrorMsg InvalidFormat) st"
| "on_message e w (Join eid sid lang audio org) st = handle_join e w eid sid lang audio org st"
| "on_message e w (UpdateLanguage lang) st = handle_update_language w lang st"
| "on_message e w (ToggleAudio b) st = handle_toggle_audio w b st"
| "on_message e w (AudioData eid audio) st = handle_audio_data e w eid audio st"
| "on_message e w OtherType st = st"

text \<open>
  What can happen to the server: a transport opens, delivers a message or closes, and an
  event row is created or deleted through the HTTP routes.
\<close>

datatype event =
    Connect wsid
  | Message wsid inbound
  | Closed wsid
  | PostEvent string int
  | DeleteEvent jsnum

fun step :: "env \<Rightarrow> state \<Rightarrow> event \<Rightarrow> state" where
  "step e st (Connect w) = on_connection w st"
| "step e st (Message w m) = on_message e w m st"
| "step e st (Closed w) = on_close w st"
| "step e st (PostEvent name organizer) = st\<lparr>storage := createEvent name organizer (storage st)\<rparr>"
| "step e st (DeleteEvent k) = st\<lparr>storage := deleteEvent k (storage st)\<rparr>"

text \<open>The server at start: no group, no row, no connection.\<close>

definition initial_state :: state where
  "initial_state =
     \<lparr>activeConnections = Map.empty, sockets = (\<lambda>_. CLOSED), vars = (\<lambda>_. initial_vars),
      storage = \<lparr>events = Map.empty, participants = [], translationsMap = [],
                 eventCurrentId = 1, participantCurrentId = 1, translationCurrentId = 1\<rparr>,
      trace = [], calls = 0, ids = 0\<rparr>"

definition run :: "env \<Rightarrow> state \<Rightarrow> event list \<Rightarrow> state" where
  "run e st evs = foldl (step e) st evs"

subsection \<open>Observations on a run\<close>

text \<open>Observers on the trace.\<close>

fun is_synthesis :: "effect \<Rightarrow> bool" where
  "is_synthesis (Synthesize _ _ _) = True"
| "is_synthesis _ = False"

fun is_translate_call :: "effect \<Rightarrow> bool" where
  "is_translate_call (TranslateCall _ _) = True"
| "is_translate_call _ = False"

fun is_stored :: "effect \<Rightarrow> bool" where
  "is_stored (Stored _) = True"
| "is_stored _ = False"

fun is_audio_send :: "effect \<Rightarrow> bool" where
  "is_audio_send (Send _ (AudioTranslation _ _)) = True"
| "is_audio_send _ = False"

fun is_completion :: "effect \<Rightarrow> bool" where
  "is_completion (Send _ (ProcessingStatus StComplete _ _ _)) = True"
| "is_completion _ = False"

text \<open>The effects a language job can have after its translation call.\<close>

fun job_effect :: "effect \<Rightarrow> bool" where
  "job_effect (Send _ (TranslationMsg _ _ _)) = True"
| "job_effect (Send _ (AudioTranslation _ _)) = True"
| "job_effect (Synthesize _ _ _) = True"
| "job_effect (Stored _) = True"
| "job_effect _ = False"

text \<open>The distinct target languages of an event: those registered, without the source.\<close>

definition target_languages :: "state \<Rightarrow> jsnum \<Rightarrow> string list" where
  "target_languages st k =
     filter (\<lambda>lang. lang \<noteq> ''English'') (uniq (map language (connections_of st k)))"

text \<open>
  A segment reaches the fan-out: its event exists, its sender is authorized, the payload
  passes both size checks, and the transcription service answers \<open>t\<close>, not blank.
\<close>

definition segment_accepted :: "env \<Rightarrow> state \<Rightarrow> wsid \<Rightarrow> jsnum \<Rightarrow> string \<Rightarrow> string \<Rightarrow> bool" where
  "segment_accepted e st w k a t \<longleftrightarrow>
     getEvent (storage st) k \<noteq> None \<and> authorized st k (v_sessionId (vars st w)) \<and>
     50 \<le> length a \<and> 100 \<le> decoded_length e a \<and> whisper e (calls st) a = Inr t \<and>
     \<not> blank t"

text \<open>
  The outcome of the translation call of each target language of the segment; the
  transcription was service call number \<open>calls st\<close>.
\<close>

definition translation_outcomes ::
  "env \<Rightarrow> state \<Rightarrow> jsnum \<Rightarrow> string \<Rightarrow> (string \<times> (string + string)) list" where
  "translation_outcomes e st k t = translate_all e (Suc (calls st)) t (target_languages st k)"

text \<open>What handling one event adds to the trace.\<close>

definition effects_of :: "env \<Rightarrow> state \<Rightarrow> event \<Rightarrow> effect list" where
  "effects_of e st ev = drop (length (trace st)) (trace (step e st ev))"

text \<open>The state in which the fan-out starts: acknowledged and transcribed.\<close>

definition transcribed_state :: "wsid \<Rightarrow> string \<Rightarrow> state \<Rightarrow> state" where
  "transcribed_state w a st =
     (emit (Transcribe a)
        (send w (ProcessingStatus StProcessing AudioReceived None None) st))\<lparr>calls := Suc (calls st)\<rparr>"

subsection \<open>Registry invariants\<close>

text \<open>Within a group no two entries carry the same session; no group is empty.\<close>

definition sessions_distinct :: "state \<Rightarrow> bool" where
  "sessions_distinct st = (\<forall>k g. activeConnections st k = Some g \<longrightarrow> distinct (map sessionId g))"

definition no_empty_group :: "state \<Rightarrow> bool" where
  "no_empty_group st = (\<forall>k. activeConnections st k \<noteq> Some [])"

subsection \<open>Concrete scenarios\<close>

text \<open>An environment in which every service answers, except translation into Klingon.\<close>

definition demo_env :: env where
  "demo_env = \<lparr>nanoid = (\<lambda>n. ''generated''), participant_time = (\<lambda>n. n),
     translation_time = (\<lambda>n. n), decoded_length = (\<lambda>a. 3 * length a div 4),
     whisper = (\<lambda>n a. Inr ''Hello''),
     chat = (\<lambda>n t l. if l = ''Klingon'' then Inl ''unsupported language'' else Inr [Some ''Hola'']),
     speech = (\<lambda>n v t. Inr ''UklGRg=='')\<rparr>"

text \<open>A payload long enough to pass both size checks.\<close>

definition clip :: string where
  "clip = replicate 200 (CHR ''A'')"

text \<open>
  Event 1 with the organizer A (English, no audio) and the listeners B (Spanish, audio)
  and C (Spanish, no audio), all transports open.
\<close>

definition conference :: state where
  "conference =
     \<lparr>activeConnections = [Num 1 \<mapsto>
        [\<lparr>ws = 1, language = ''English'', sessionId = ''a'', enableAudio = False, isOrganizer = True\<rparr>,
         \<lparr>ws = 2, language = ''Spanish'', sessionId = ''b'', enableAudio = True, isOrganizer = False\<rparr>,
         \<lparr>ws = 3, language = ''Spanish'', sessionId = ''c'', enableAudio = False, isOrganizer = False\<rparr>]],
      sockets = (\<lambda>_. OPEN),
      vars = (\<lambda>_. initial_vars)
        (1 := \<lparr>v_sessionId = ''a'', v_eventId = Num 1, v_language = ''English'', v_enableAudio = False\<rparr>,
         2 := \<lparr>v_sessionId = ''b'', v_eventId = Num 1, v_language = ''Spanish'', v_enableAudio = True\<rparr>,
         3 := \<lparr>v_sessionId = ''c'', v_eventId = Num 1, v_language = ''Spanish'', v_enableAudio = False\<rparr>),
      storage = \<lparr>events = [1 \<mapsto> \<lparr>ev_id = 1, ev_name = ''Keynote'', organizerId = 1\<rparr>],
                 participants = [], translationsMap = [],
                 eventCurrentId = 2, participantCurrentId = 1, translationCurrentId = 1\<rparr>,
      trace = [], calls = 0, ids = 0\<rparr>"

text \<open>
  Event 1 with an English organizer and one listener each in Spanish, French and
  Klingon, all transports open.
\<close>

definition summit :: state where
  "summit =
     \<lparr>activeConnections = [Num 1 \<mapsto>
        [\<lparr>ws = 1, language = ''English'', sessionId = ''a'', enableAudio = False, isOrganizer = True\<rparr>,
         \<lparr>ws = 2, language = ''Spanish'', sessionId = ''b'', enableAudio = False, isOrganizer = False\<rparr>,
         \<lparr>ws = 3, language = ''French'', sessionId = ''c'', enableAudio = False, isOrganizer = False\<rparr>,
         \<lparr>ws = 4, language = ''Klingon'', sessionId = ''d'', enableAudio = False, isOrganizer = False\<rparr>]],
      sockets = (\<lambda>_. OPEN),
      vars = (\<lambda>_. initial_vars)
        (1 := \<lparr>v_sessionId = ''a'', v_eventId = Num 1, v_language = ''English'', v_enableAudio = False\<rparr>),
      storage = \<lparr>events = [1 \<mapsto> \<lparr>ev_id = 1, ev_name = ''Summit'', organizerId = 1\<rparr>],
                 participants = [], translationsMap = [],
                 eventCurrentId = 2, participantCurrentId = 1, translationCurrentId = 1\<rparr>,
      trace = [], calls = 0, ids = 0\<rparr>"

text \<open>
  Event 1 with an English organizer and two Spanish listeners, both with audio enabled,
  all transports open.
\<close>

definition duet :: state where
  "duet =
     \<lparr>activeConnections = [Num 1 \<mapsto>
        [\<lparr>ws = 1, language = ''English'', sessionId = ''a'', enableAudio = False, isOrganizer = True\<rparr>,
         \<lparr>ws = 2, language = ''Spanish'', sessionId = ''b'', enableAudio = True, isOrganizer = False\<rparr>,
         \<lparr>ws = 3, language = ''Spanish'', sessionId = ''c'', enableAudio = True, isOrganizer = False\<rparr>]],
      sockets = (\<lambda>_. OPEN),
      vars = (\<lambda>_. initial_vars)
        (1 := \<lparr>v_sessionId = ''a'', v_eventId = Num 1, v_language = ''English'', v_enableAudio = False\<rparr>),
      storage = \<lparr>events = [1 \<mapsto> \<lparr>ev_id = 1, ev_name = ''Duet'', organizerId = 1\<rparr>],
                 participants = [], translationsMap = [],
                 eventCurrentId = 2, participantCurrentId = 1, translationCurrentId = 1\<rparr>,
      trace = [], calls = 0, ids = 0\<rparr>"

text \<open>The same services, with a synthesis that always fails.\<close>

definition mute_env :: env where
  "mute_env = demo_env\<lparr>speech := (\<lambda>n v x. Inl ''quota exceeded'')\<rparr>"

text \<open>The same services, with a translation whose answer has no content.\<close>

definition silent_env :: env where
  "silent_env = demo_env\<lparr>chat := (\<lambda>n t l. Inr [None])\<rparr>"

text \<open>The same services, with a transcription of white space only.\<close>

definition hush_env :: env where
  "hush_env = demo_env\<lparr>whisper := (\<lambda>n a. Inr ''   '')\<rparr>"

text \<open>
  A run from the start: a listener joins event 7 in Spanish under session \<open>s1\<close>
  (\<open>evs2\<close>), then a second transport opens (\<open>evs1\<close>). \<open>old1\<close> is the entry of
  that listener.
\<close>

definition evs2 :: "event list" where
  "evs2 = [Connect 1, Message 1 (Join (Some (Num 7)) (Some ''s1'') (Some ''Spanish'') None None)]"

definition evs1 :: "event list" where
  "evs1 = [Connect 1, Message 1 (Join (Some (Num 7)) (Some ''s1'') (Some ''Spanish'') None None), Connect 2]"

definition old1 :: EventConnection where
  "old1 = \<lparr>ws = 1, language = ''Spanish'', sessionId = ''s1'', enableAudio = False, isOrganizer = False\<rparr>"


text \<open>
  The second transport joins event 7 under the session of the first (\<open>superseded\<close>);
  then the first transport, closed by that join, reports its close (\<open>orphaned\<close>).
\<close>

definition rejoin :: event where
  "rejoin = Message 2 (Join (Some (Num 7)) (Some ''s1'') None (Some True) None)"

definition superseded :: state where
  "superseded = run demo_env initial_state (evs1 @ [rejoin])"

definition orphaned :: state where
  "orphaned = step demo_env superseded (Closed 1)"

text \<open>The first transport joins event 7 a second time under its own session.\<close>

definition selfjoined :: state where
  "selfjoined = step demo_env (run demo_env initial_state evs2)
                  (Message 1 (Join (Some (Num 7)) (Some ''s1'') (Some ''Spanish'') None None))"





section \<open>Properties\<close>

subsection \<open>What each step leaves unchanged\<close>

lemma act_emit[simp]: "activeConnections (emit x st) = activeConnections st"
  by (simp add: emit_def)
lemma act_send[simp]: "activeConnections (send w m st) = activeConnections st"
  by (simp add: send_def)
lemma act_broadcast[simp]: "activeConnections (broadcast_count n cs st) = activeConnections st"
  by (induction cs arbitrary: st) auto

lemma findIndex_None: "findIndex P xs = None \<longleftrightarrow> (\<forall>x\<in>set xs. \<not> P x)"
  by (induction xs) auto
lemma findIndex_Some: "findIndex P xs = Some i \<Longrightarrow> i < length xs \<and> P (xs ! i) \<and> (\<forall>j<i. \<not> P (xs ! j))"
proof (induction xs arbitrary: i)
  case Nil then show ?case by simp
next
  case (Cons x xs)
  show ?case
  proof (cases "P x")
    case True with Cons.prems show ?thesis by simp
  next
    case False
    with Cons.prems obtain j where j: "findIndex P xs = Some j" "i = Suc j" by auto
    from Cons.IH[OF j(1)] False j(2) show ?thesis by (auto simp: nth_Cons split: nat.splits)
  qed
qed

lemma splice1_distinct:
  assumes "distinct (map f xs)" "i < length xs"
  shows "distinct (map f (splice1 i xs))" "f (xs ! i) \<notin> f ` set (splice1 i xs)"
proof -
  have xs: "xs = take i xs @ xs ! i # drop (Suc i) xs" using assms(2) by (simp add: id_take_nth_drop)
  have "distinct (map f (take i xs @ xs ! i # drop (Suc i) xs))" using assms(1) xs by simp
  then show "distinct (map f (splice1 i xs))" "f (xs ! i) \<notin> f ` set (splice1 i xs)"
    by (auto simp: splice1_def)
qed

lemma frame_emit[simp]: "sockets (emit x st) = sockets st" "vars (emit x st) = vars st"
  "storage (emit x st) = storage st" "calls (emit x st) = calls st" "trace (emit x st) = trace st @ [x]"
  by (simp_all add: emit_def)
lemma frame_send[simp]: "sockets (send w m st) = sockets st" "vars (send w m st) = vars st"
  "storage (send w m st) = storage st" "calls (send w m st) = calls st"
  "trace (send w m st) = trace st @ [Send w m]"
  by (simp_all add: send_def)

lemma frame_store: "store_translation e ins st = (tr, st') \<Longrightarrow>
   activeConnections st' = activeConnections st \<and> sockets st' = sockets st \<and> vars st' = vars st \<and> calls st' = calls st"
  by (auto simp: store_translation_def split: prod.splits)

lemma frame_speech: "call_speech e t v l st = (r, st') \<Longrightarrow>
   activeConnections st' = activeConnections st \<and> sockets st' = sockets st \<and> vars st' = vars st \<and> storage st' = storage st"
  by (auto simp: call_speech_def)

lemma frame_transcribe: "call_transcribe e a st = (r, st') \<Longrightarrow>
   activeConnections st' = activeConnections st \<and> sockets st' = sockets st \<and> vars st' = vars st \<and> storage st' = storage st"
  by (auto simp: call_transcribe_def split: prod.splits if_splits)

lemma frame_send_original[simp]:
  "activeConnections (send_original tr t cs st) = activeConnections st"
  "sockets (send_original tr t cs st) = sockets st"
  "vars (send_original tr t cs st) = vars st"
  "storage (send_original tr t cs st) = storage st"
  "calls (send_original tr t cs st) = calls st"
  by (induction cs arbitrary: st) auto

lemma frame_deliver_one[simp]:
  "activeConnections (deliver_to_client e tr t tt l c st) = activeConnections st"
  "sockets (deliver_to_client e tr t tt l c st) = sockets st"
  "vars (deliver_to_client e tr t tt l c st) = vars st"
  "storage (deliver_to_client e tr t tt l c st) = storage st"
  by (auto simp: deliver_to_client_def Let_def call_speech_def split: prod.splits sum.splits)

lemma frame_deliver[simp]:
  "activeConnections (deliver_translation e tr t tt l cs st) = activeConnections st"
  "sockets (deliver_translation e tr t tt l cs st) = sockets st"
  "vars (deliver_translation e tr t tt l cs st) = vars st"
  "storage (deliver_translation e tr t tt l cs st) = storage st"
  by (induction cs arbitrary: st) auto

lemma frame_job: "language_job e k t conns job st = (r, st') \<Longrightarrow>
   activeConnections st' = activeConnections st \<and> sockets st' = sockets st \<and> vars st' = vars st"
  by (auto simp: language_job_def split: prod.splits sum.splits dest: frame_store)

lemma frame_settle: "settle_jobs e k t conns jobs st = (rs, st') \<Longrightarrow>
   activeConnections st' = activeConnections st \<and> sockets st' = sockets st \<and> vars st' = vars st"
proof (induction jobs arbitrary: st rs)
  case Nil then show ?case by simp
next
  case (Cons job jobs)
  then show ?case by (auto split: prod.splits dest!: frame_job)
qed

lemma frame_start: "start_translations e t targets st = (jobs, st') \<Longrightarrow>
   activeConnections st' = activeConnections st \<and> sockets st' = sockets st \<and> vars st' = vars st \<and> storage st' = storage st"
  by (auto simp: start_translations_def)

lemma frame_fan_out:
  "activeConnections (fan_out e w k t st) = activeConnections st"
  "sockets (fan_out e w k t st) = sockets st"
  "vars (fan_out e w k t st) = vars st"
  by (auto simp: fan_out_def Let_def split: prod.splits dest!: frame_store frame_start frame_settle)

lemma frame_process_audio:
  "activeConnections (process_audio e w k a st) = activeConnections st"
  "sockets (process_audio e w k a st) = sockets st"
  "vars (process_audio e w k a st) = vars st"
  by (auto simp: process_audio_def frame_fan_out split: prod.splits sum.splits dest!: frame_transcribe)

lemma frame_audio_data:
  "activeConnections (handle_audio_data e w eid a st) = activeConnections st"
  "sockets (handle_audio_data e w eid a st) = sockets st"
  "vars (handle_audio_data e w eid a st) = vars st"
  by (auto simp: handle_audio_data_def frame_process_audio split: option.splits audio_field.splits)

subsection \<open>The registry invariants hold in every reachable state\<close>

lemma act_ensure: "activeConnections (ensure_group k st) = 
   (if activeConnections st k = None then (activeConnections st)(k \<mapsto> []) else activeConnections st)"
  by (simp add: ensure_group_def)

lemma sockets_ensure[simp]: "sockets (ensure_group k st) = sockets st"
  by (simp add: ensure_group_def)

lemma ensure_group_distinct: "sessions_distinct st \<Longrightarrow> sessions_distinct (ensure_group k st)"
  by (auto simp: sessions_distinct_def ensure_group_def)

lemma ensure_group_Some: "\<exists>g. activeConnections (ensure_group k st) k = Some g"
  by (auto simp: ensure_group_def)

lemma ensure_group_others: "activeConnections (ensure_group k st) k' \<noteq> Some [] \<or> k' = k"
  if "no_empty_group st"
  using that by (auto simp: ensure_group_def no_empty_group_def)

lemma supersede_group:
  assumes "activeConnections st k = Some g" "distinct (map sessionId g)"
  shows "\<exists>g'. activeConnections (join_supersede k sid st) k = Some g' \<and>
           distinct (map sessionId g') \<and> sid \<notin> sessionId ` set g' \<and> set g' \<subseteq> set g"
proof (cases "findIndex (\<lambda>c. sessionId c = sid) g")
  case None
  then have "sid \<notin> sessionId ` set g" by (auto simp: findIndex_None)
  with None assms show ?thesis by (simp add: join_supersede_def connections_of_def)
next
  case (Some i)
  from findIndex_Some[OF Some] have i: "i < length g" "sessionId (g ! i) = sid" by auto
  from splice1_distinct[OF assms(2) i(1)] i(2)
  have "distinct (map sessionId (splice1 i g))" "sid \<notin> sessionId ` set (splice1 i g)" by auto
  moreover have "set (splice1 i g) \<subseteq> set g"
    by (auto simp: splice1_def dest: in_set_takeD in_set_dropD)
  ultimately show ?thesis using Some assms
    by (simp add: join_supersede_def connections_of_def Let_def close_ws_def)
qed

lemma supersede_others:
  "k' \<noteq> k \<Longrightarrow> activeConnections (join_supersede k sid st) k' = activeConnections st k'"
  by (auto simp: join_supersede_def Let_def close_ws_def split: option.splits)

lemma supersede_None:
  "activeConnections st k = None \<Longrightarrow> activeConnections (join_supersede k sid st) = activeConnections st"
  by (simp add: join_supersede_def connections_of_def)

lemma act_join_participant[simp]:
  "activeConnections (join_participant e k sid l st) = activeConnections st"
  "sockets (join_participant e k sid l st) = sockets st"
  by (auto simp: join_participant_def split: option.splits)

lemma act_resolve: "resolve_session e sid st = (s, st') \<Longrightarrow> activeConnections st' = activeConnections st \<and> sockets st' = sockets st"
  by (auto simp: resolve_session_def split: option.splits if_splits)

lemma act_join_replies[simp]:
  "activeConnections (join_replies e w k sid lang org st) = activeConnections st"
  by (simp add: join_replies_def Let_def)

lemma registry_group:
  assumes "sessions_distinct st"
  shows "\<exists>g'. activeConnections (join_registry w k sid lang audio org st) =
            (activeConnections st)(k \<mapsto> g' @
               [\<lparr>ws = w, language = lang, sessionId = sid, enableAudio = audio, isOrganizer = org\<rparr>])
          \<and> distinct (map sessionId g') \<and> sid \<notin> sessionId ` set g'
          \<and> set g' \<subseteq> set (connections_of st k)"
proof -
  define st1 where "st1 = st\<lparr>vars := (vars st)(w :=
       \<lparr>v_sessionId = sid, v_eventId = k, v_language = lang, v_enableAudio = audio\<rparr>)\<rparr>"
  have a1: "activeConnections st1 = activeConnections st" by (simp add: st1_def)
  obtain g where g: "activeConnections (ensure_group k st1) k = Some g"
    using ensure_group_Some by blast
  have gs: "set g \<subseteq> set (connections_of st k)"
    using g a1 by (auto simp: ensure_group_def connections_of_def split: if_splits)
  have "sessions_distinct (ensure_group k st1)"
    using assms a1 by (auto simp: sessions_distinct_def ensure_group_def)
  with g have dg: "distinct (map sessionId g)" by (auto simp: sessions_distinct_def)
  from supersede_group[OF g dg, of sid] obtain g' where
    g': "activeConnections (join_supersede k sid (ensure_group k st1)) k = Some g'"
        "distinct (map sessionId g')" "sid \<notin> sessionId ` set g'" "set g' \<subseteq> set g" by blast
  have oth: "activeConnections (join_supersede k sid (ensure_group k st1)) k' = activeConnections st k'"
    if "k' \<noteq> k" for k'
    using a1 that by (simp add: supersede_others ensure_group_def)
  have "activeConnections (join_registry w k sid lang audio org st) =
          (activeConnections st)(k \<mapsto> g' @
               [\<lparr>ws = w, language = lang, sessionId = sid, enableAudio = audio, isOrganizer = org\<rparr>])"
    using g' oth by (auto simp: join_registry_def join_register_def st1_def[symmetric])
  with g' gs show ?thesis by blast
qed

lemma join_keeps_inv:
  assumes "sessions_distinct st" "no_empty_group st"
  shows "sessions_distinct (handle_join e w eid sid lang audio org st) \<and>
         no_empty_group (handle_join e w eid sid lang audio org st)"
proof (cases eid)
  case None
  with assms show ?thesis by (simp add: handle_join_def sessions_distinct_def no_empty_group_def)
next
  case (Some k)
  obtain s st0 where r: "resolve_session e sid st = (s, st0)" by (cases "resolve_session e sid st")
  have a0: "activeConnections st0 = activeConnections st" using act_resolve[OF r] by simp
  then have d0: "sessions_distinct st0" using assms(1) by (simp add: sessions_distinct_def)
  from registry_group[OF d0, of w k s "or_else lang ''English''" "or_false audio" "or_false org"]
  obtain g' where g': "activeConnections (handle_join e w eid sid lang audio org st) =
       (activeConnections st)(k \<mapsto> g' @
               [\<lparr>ws = w, language = or_else lang ''English'', sessionId = s,
                 enableAudio = or_false audio, isOrganizer = or_false org\<rparr>])"
     "distinct (map sessionId g')" "s \<notin> sessionId ` set g'"
    using Some r a0 by (auto simp: handle_join_def)
  then show ?thesis using assms
    by (auto simp: sessions_distinct_def no_empty_group_def)
qed

lemma update_language_keeps_inv:
  assumes "sessions_distinct st" "no_empty_group st"
  shows "sessions_distinct (handle_update_language w l st) \<and> no_empty_group (handle_update_language w l st)"
proof -
  have m: "map sessionId (g[i := (g ! i)\<lparr>language := l\<rparr>]) = map sessionId g" for g :: "EventConnection list" and i
    by (cases "i < length g") (simp_all add: map_update list_update_same_conv list_update_beyond)
  have n: "g[i := x] = [] \<longleftrightarrow> g = []" for g :: "EventConnection list" and i x by simp
  show ?thesis using assms
    unfolding handle_update_language_def sessions_distinct_def no_empty_group_def Let_def
    by (auto simp: m split: option.splits if_splits)
qed

lemma toggle_audio_keeps_inv:
  assumes "sessions_distinct st" "no_empty_group st"
  shows "sessions_distinct (handle_toggle_audio w b st) \<and> no_empty_group (handle_toggle_audio w b st)"
proof -
  have m: "map sessionId (g[i := (g ! i)\<lparr>enableAudio := b\<rparr>]) = map sessionId g" for g :: "EventConnection list" and i
    by (cases "i < length g") (simp_all add: map_update list_update_same_conv list_update_beyond)
  show ?thesis using assms
    unfolding handle_toggle_audio_def sessions_distinct_def no_empty_group_def Let_def
    by (auto simp: m split: option.splits if_splits)
qed

lemma close_keeps_inv:
  assumes "sessions_distinct st" "no_empty_group st"
  shows "sessions_distinct (on_close w st) \<and> no_empty_group (on_close w st)"
  using assms
  unfolding on_close_def sessions_distinct_def no_empty_group_def Let_def connections_of_def
  by (auto simp: distinct_map_filter split: option.splits if_splits)

lemma step_keeps_inv:
  assumes "sessions_distinct st" "no_empty_group st"
  shows "sessions_distinct (step e st ev) \<and> no_empty_group (step e st ev)"
proof (cases ev)
  case (Connect w)
  with assms show ?thesis by (simp add: on_connection_def sessions_distinct_def no_empty_group_def)
next
  case (Message w m)
  show ?thesis
  proof (cases m)
    case (Join eid sid lang audio org)
    with Message join_keeps_inv[OF assms] show ?thesis by simp
  next
    case (UpdateLanguage l)
    with Message update_language_keeps_inv[OF assms] show ?thesis by simp
  next
    case (ToggleAudio b)
    with Message toggle_audio_keeps_inv[OF assms] show ?thesis by simp
  next
    case (AudioData eid a)
    with Message assms show ?thesis
      by (simp add: sessions_distinct_def no_empty_group_def frame_audio_data)
  next
    case InvalidJson
    with Message assms show ?thesis by (simp add: sessions_distinct_def no_empty_group_def)
  next
    case OtherType
    with Message assms show ?thesis by simp
  qed
next
  case (Closed w)
  with close_keeps_inv[OF assms] show ?thesis by simp
next
  case (PostEvent n o)
  with assms show ?thesis by (simp add: sessions_distinct_def no_empty_group_def)
next
  case (DeleteEvent k)
  with assms show ?thesis by (simp add: sessions_distinct_def no_empty_group_def)
qed

lemma run_keeps_inv:
  "sessions_distinct st \<Longrightarrow> no_empty_group st \<Longrightarrow>
   sessions_distinct (run e st evs) \<and> no_empty_group (run e st evs)"
proof (induction evs arbitrary: st)
  case Nil then show ?case by (simp add: run_def)
next
  case (Cons ev evs)
  from step_keeps_inv[OF Cons.prems, of e ev] Cons.IH[of "step e st ev"]
  show ?case by (simp add: run_def)
qed

lemma initial_inv: "sessions_distinct initial_state" "no_empty_group initial_state"
  by (simp_all add: sessions_distinct_def no_empty_group_def initial_state_def)

lemma sockets_broadcast[simp]: "sockets (broadcast_count n cs st) = sockets st"
  by (induction cs arbitrary: st) auto

lemma trace_broadcast:
  "trace (broadcast_count n cs st) =
     trace st @ map (\<lambda>c. Send (ws c) (ParticipantCount n)) (filter (\<lambda>c. sockets st (ws c) = OPEN) cs)"
  by (induction cs arbitrary: st) auto

lemma trace_broadcast_mono: "set (trace st) \<subseteq> set (trace (broadcast_count n cs st))"
  by (simp add: trace_broadcast)

lemma sockets_join_replies[simp]: "sockets (join_replies e w k sid lang org st) = sockets st"
  by (simp add: join_replies_def Let_def)

lemma trace_join_replies_mono: "set (trace st) \<subseteq> set (trace (join_replies e w k sid lang org st))"
proof -
  have "set (trace st) \<subseteq> set (trace (if org then st else join_participant e k sid lang st))"
    by (auto simp: join_participant_def split: option.splits)
  then show ?thesis
    unfolding join_replies_def Let_def
    using trace_broadcast_mono by (fastforce simp: subset_iff)
qed

lemma supersede_closes:
  assumes "activeConnections st k = Some g" "distinct (map sessionId g)"
      and "old \<in> set g" "sessionId old = sid"
  shows "sockets (join_supersede k sid st) (ws old) \<noteq> OPEN"
    and "sockets st (ws old) = OPEN \<Longrightarrow> Close (ws old) \<in> set (trace (join_supersede k sid st))"
proof -
  from assms(3,4) have "findIndex (\<lambda>c. sessionId c = sid) g \<noteq> None"
    by (auto simp: findIndex_None)
  then obtain i where i: "findIndex (\<lambda>c. sessionId c = sid) g = Some i" by blast
  from findIndex_Some[OF i] have "i < length g" "sessionId (g ! i) = sid" by auto
  then have "g ! i \<in> set g" "sessionId (g ! i) = sessionId old" using assms(4) by auto
  with assms(2,3) have eq: "g ! i = old"
    by (meson distinct_map inj_onD)
  show "sockets (join_supersede k sid st) (ws old) \<noteq> OPEN"
    using assms(1) i eq by (simp add: join_supersede_def connections_of_def Let_def close_ws_def)
  show "Close (ws old) \<in> set (trace (join_supersede k sid st))" if "sockets st (ws old) = OPEN"
    using that assms(1) i eq by (simp add: join_supersede_def connections_of_def Let_def close_ws_def)
qed

lemma supersede_frame_indep:
  "activeConnections st' = activeConnections st \<Longrightarrow> sockets st' = sockets st \<Longrightarrow> trace st' = trace st \<Longrightarrow>
   activeConnections (join_supersede k sid st') = activeConnections (join_supersede k sid st) \<and>
   sockets (join_supersede k sid st') = sockets (join_supersede k sid st) \<and>
   trace (join_supersede k sid st') = trace (join_supersede k sid st)"
  by (simp add: join_supersede_def connections_of_def Let_def close_ws_def emit_def split: option.splits)

lemma join_registry_sockets:
  "activeConnections st k \<noteq> None \<Longrightarrow>
   sockets (join_registry w k sid lang audio org st) = sockets (join_supersede k sid st) \<and>
   trace (join_registry w k sid lang audio org st) = trace (join_supersede k sid st) \<and>
   activeConnections (join_registry w k sid lang audio org st) =
     activeConnections (join_register k \<lparr>ws = w, language = lang, sessionId = sid, enableAudio = audio, isOrganizer = org\<rparr> (join_supersede k sid st))"
proof -
  assume a: "activeConnections st k \<noteq> None"
  define st1 where "st1 = ensure_group k (st\<lparr>vars := (vars st)(w :=
       \<lparr>v_sessionId = sid, v_eventId = k, v_language = lang, v_enableAudio = audio\<rparr>)\<rparr>)"
  have "activeConnections st1 = activeConnections st" "sockets st1 = sockets st" "trace st1 = trace st"
    using a by (auto simp: st1_def ensure_group_def)
  from supersede_frame_indep[OF this, of k sid] show ?thesis
    by (simp add: join_registry_def st1_def[symmetric] join_register_def split: option.splits)
qed


subsection \<open>Joining and leaving\<close>

text \<open>
  The state in which the join handler returns. In any reachable state, a join that
  carries a session identifier already present in the group of its event leaves exactly
  one entry of that session in the group, the new one; in the state in which the new
  entry is pushed (\<open>before\<close>), the transport of the prior entry is no longer open and
  the prior entry is gone. Nothing is said here about the transport of the new entry, nor
  about what the close of the prior transport does next.
\<close>

lemma join_result_at_return:
  assumes "st = run e initial_state evs"
      and "activeConnections st k = Some g" and "old \<in> set g" and "sessionId old = sid"
      and "sid \<noteq> []"
      and "entry = \<lparr>ws = w, language = or_else lang ''English'', sessionId = sid,
                     enableAudio = or_false audio, isOrganizer = or_false org\<rparr>"
      and "before = join_supersede k sid st"
      and "after = step e st (Message w (Join (Some k) (Some sid) lang audio org))"
  shows "sockets before (ws old) \<noteq> OPEN \<and>
         (\<forall>c\<in>set (connections_of before k). sessionId c \<noteq> sid) \<and>
         connections_of after k = connections_of before k @ [entry] \<and>
         filter (\<lambda>c. sessionId c = sid) (connections_of after k) = [entry] \<and>
         sockets after (ws old) \<noteq> OPEN \<and>
         (sockets st (ws old) = OPEN \<longrightarrow> Close (ws old) \<in> set (trace after))"
proof -
  have d: "sessions_distinct st"
    using run_keeps_inv[OF initial_inv] assms(1) by simp
  with assms(2) have dg: "distinct (map sessionId g)" by (simp add: sessions_distinct_def)
  note cl = supersede_closes[OF assms(2) dg assms(3,4)]
  from supersede_group[OF assms(2) dg, of sid] obtain g' where
    g': "activeConnections before k = Some g'" "sid \<notin> sessionId ` set g'"
    using assms(7) by blast
  have r: "resolve_session e (Some sid) st = (sid, st)"
    using assms(5) by (simp add: resolve_session_def)
  have ne: "activeConnections st k \<noteq> None" using assms(2) by simp
  note jr = join_registry_sockets[OF ne, of w sid "or_else lang ''English''" "or_false audio" "or_false org"]
  have after: "after = join_replies e w k sid (or_else lang ''English'') (or_false org)
                 (join_registry w k sid (or_else lang ''English'') (or_false audio) (or_false org) st)"
    using assms(8) r by (simp add: handle_join_def)
  have c1: "connections_of after k = connections_of before k @ [entry]"
    using after jr g' assms(6,7) by (simp add: connections_of_def join_register_def)
  have c2: "\<forall>c\<in>set (connections_of before k). sessionId c \<noteq> sid"
    using g' by (auto simp: connections_of_def)
  have c3: "filter (\<lambda>c. sessionId c = sid) (connections_of after k) = [entry]"
    using c1 c2 assms(6) by (simp add: filter_empty_conv)
  have c4: "sockets after = sockets before" using after jr assms(7) by simp
  have c5: "set (trace before) \<subseteq> set (trace after)"
    using trace_join_replies_mono[of "join_registry w k sid (or_else lang ''English'') (or_false audio) (or_false org) st" e w k sid "or_else lang ''English''" "or_false org"]
    unfolding after assms(7) using jr by simp
  show ?thesis using cl c1 c2 c3 c4 c5 assms(7) by auto
qed

lemma join_result_example:
  "activeConnections (run demo_env initial_state evs1) (Num 7) = Some [old1]
   \<and> sockets (run demo_env initial_state evs1) (ws old1) = OPEN
   \<and> sockets (join_supersede (Num 7) ''s1'' (run demo_env initial_state evs1)) (ws old1) \<noteq> OPEN
   \<and> filter (\<lambda>c. sessionId c = ''s1'')
        (connections_of (step demo_env (run demo_env initial_state evs1)
           (Message 2 (Join (Some (Num 7)) (Some ''s1'') None (Some True) None))) (Num 7))
     = [\<lparr>ws = 2, language = ''English'', sessionId = ''s1'', enableAudio = True, isOrganizer = False\<rparr>]
   \<and> Close (ws old1) \<in> set (trace (step demo_env (run demo_env initial_state evs1)
           (Message 2 (Join (Some (Num 7)) (Some ''s1'') None (Some True) None))))"
proof -
  have h1: "activeConnections (run demo_env initial_state evs1) (Num 7) = Some [old1]"
    by code_simp
  have h2: "sockets (run demo_env initial_state evs1) (ws old1) = OPEN"
    by code_simp
  have h3: "old1 \<in> set [old1]" "sessionId old1 = ''s1''" "''s1'' \<noteq> []"
    by (simp_all add: old1_def)
  from join_result_at_return[OF refl h1 h3 refl refl refl,
         of 2 None "Some True" None] h1 h2
  show ?thesis by simp
qed

lemma session_joined_sent:
  "Send w (SessionJoined sid k lang org) \<in> set (trace (join_replies e w k sid lang org st))"
  by (simp add: join_replies_def Let_def trace_broadcast)

lemma close_last_deletes:
  assumes "truthy (v_eventId (vars st w))"
      and "\<forall>c\<in>set (connections_of st (v_eventId (vars st w))). sessionId c = v_sessionId (vars st w)"
  shows "activeConnections (on_close w st) (v_eventId (vars st w)) = None"
proof -
  have "filter (\<lambda>c. sessionId c \<noteq> v_sessionId (vars st w)) (connections_of st (v_eventId (vars st w))) = []"
    using assms(2) by (simp add: filter_empty_conv)
  then show ?thesis using assms(1)
    by (auto simp: on_close_def Let_def connections_of_def split: option.splits)
qed

text \<open>The three states are evaluated once each.\<close>

lemma supersede_eval:
  "(let S1 = superseded; S2 = step demo_env S1 (Closed 1)
    in (connections_of S1 (Num 7), sockets S1 1, sockets S2 2, activeConnections S2 (Num 7))) =
   ([\<lparr>ws = 2, language = ''English'', sessionId = ''s1'', enableAudio = True,
      isOrganizer = False\<rparr>],
    CLOSING, OPEN, None)"
  by code_simp

lemma selfjoin_eval:
  "(let S = selfjoined in (connections_of S (Num 7), sockets S 1)) =
   ([\<lparr>ws = 1, language = ''Spanish'', sessionId = ''s1'', enableAudio = False,
      isOrganizer = False\<rparr>], CLOSING)"
  by code_simp

text \<open>
  C3. The code does not keep one live entry for the session after a superseding join.
  The close handler removes by session, not by transport: the join closes transport 1
  and registers the entry of transport 2, and when transport 1 reports the close that
  the join itself asked for, the entries of session \<open>s1\<close> are filtered out of the
  group, the entry of transport 2 among them. Transport 2 is still open and its session
  has no entry (the group, left empty, is deleted). Moreover, when a transport joins again
  under its own session, the join closes that very transport and registers it: the only
  entry of the session then has a closing transport.
\<close>

theorem superseding_join_loses_session:
  "connections_of superseded (Num 7) =
     [\<lparr>ws = 2, language = ''English'', sessionId = ''s1'', enableAudio = True,
       isOrganizer = False\<rparr>] \<and>
   sockets superseded 1 = CLOSING \<and>
   sockets orphaned 2 = OPEN \<and>
   activeConnections orphaned (Num 7) = None \<and>
   connections_of selfjoined (Num 7) =
     [\<lparr>ws = 1, language = ''Spanish'', sessionId = ''s1'', enableAudio = False,
       isOrganizer = False\<rparr>] \<and>
   sockets selfjoined 1 = CLOSING"
  using supersede_eval selfjoin_eval by (simp add: Let_def orphaned_def)

text \<open>
  C9. In no reachable state does the registry hold a group with zero entries. When the
  close handler of a connection with a truthy event identifier removes the last entries
  of that event's group, the key is deleted from the map; a join to the event after that
  succeeds and its group holds the new entry alone.
\<close>

theorem empty_group_never_persists:
  assumes "st = run e initial_state evs"
      and "k = v_eventId (vars st w)"
      and "closed = step e st (Closed w)"
      and "rejoined = step e closed (Message w' (Join (Some k) sid lang audio org))"
  shows "(\<forall>k'. activeConnections st k' \<noteq> Some []) \<and>
         (truthy k \<and> (\<forall>c\<in>set (connections_of st k). sessionId c = v_sessionId (vars st w)) \<longrightarrow>
            activeConnections closed k = None \<and>
            activeConnections rejoined k =
              Some [\<lparr>ws = w', language = or_else lang ''English'',
                     sessionId = fst (resolve_session e sid closed),
                     enableAudio = or_false audio, isOrganizer = or_false org\<rparr>] \<and>
            Send w' (SessionJoined (fst (resolve_session e sid closed)) k
                       (or_else lang ''English'') (or_false org)) \<in> set (trace rejoined))"
proof -
  have inv: "sessions_distinct st" "no_empty_group st"
    using run_keeps_inv[OF initial_inv] assms(1) by simp_all
  have p1: "\<forall>k'. activeConnections st k' \<noteq> Some []"
    using inv(2) by (simp add: no_empty_group_def)
  have p2: "activeConnections closed k = None \<and>
            activeConnections rejoined k =
              Some [\<lparr>ws = w', language = or_else lang ''English'',
                     sessionId = fst (resolve_session e sid closed),
                     enableAudio = or_false audio, isOrganizer = or_false org\<rparr>] \<and>
            Send w' (SessionJoined (fst (resolve_session e sid closed)) k
                       (or_else lang ''English'') (or_false org)) \<in> set (trace rejoined)"
    if t: "truthy k" and l: "\<forall>c\<in>set (connections_of st k). sessionId c = v_sessionId (vars st w)"
  proof -
    have c: "activeConnections closed k = None"
      using close_last_deletes[of st w] t l assms(2,3) by simp
    have dc: "sessions_distinct closed"
      using step_keeps_inv[OF inv, of e "Closed w"] assms(3) by simp
    obtain s st0 where r: "resolve_session e sid closed = (s, st0)"
      by (cases "resolve_session e sid closed")
    have a0: "activeConnections st0 = activeConnections closed" using act_resolve[OF r] by simp
    then have d0: "sessions_distinct st0" using dc by (simp add: sessions_distinct_def)
    have rj: "rejoined = join_replies e w' k s (or_else lang ''English'') (or_false org)
                 (join_registry w' k s (or_else lang ''English'') (or_false audio) (or_false org) st0)"
      using assms(4) r by (simp add: handle_join_def)
    from registry_group[OF d0, of w' k s "or_else lang ''English''" "or_false audio" "or_false org"]
    obtain g' where g': "activeConnections (join_registry w' k s (or_else lang ''English'') (or_false audio) (or_false org) st0) =
            (activeConnections st0)(k \<mapsto> g' @
               [\<lparr>ws = w', language = or_else lang ''English'', sessionId = s,
                 enableAudio = or_false audio, isOrganizer = or_false org\<rparr>])"
        "set g' \<subseteq> set (connections_of st0 k)" by blast
    have "connections_of st0 k = []" using a0 c by (simp add: connections_of_def)
    with g'(2) have "g' = []" by simp
    with g'(1) rj r have j: "activeConnections rejoined k =
              Some [\<lparr>ws = w', language = or_else lang ''English'',
                     sessionId = fst (resolve_session e sid closed),
                     enableAudio = or_false audio, isOrganizer = or_false org\<rparr>]" by simp
    have "Send w' (SessionJoined s k (or_else lang ''English'') (or_false org)) \<in> set (trace rejoined)"
      unfolding rj by (rule session_joined_sent)
    with c j r show ?thesis by simp
  qed
  show ?thesis using p1 p2 by blast
qed

theorem empty_group_witness:
  "truthy (Num 7) \<and> v_eventId (vars (run demo_env initial_state evs2) 1) = Num 7 \<and>
   connections_of (run demo_env initial_state evs2) (Num 7) = [old1] \<and>
   sessionId old1 = v_sessionId (vars (run demo_env initial_state evs2) 1) \<and>
   activeConnections (step demo_env (run demo_env initial_state evs2) (Closed 1)) (Num 7) = None \<and>
   activeConnections (step demo_env (step demo_env (run demo_env initial_state evs2) (Closed 1))
        (Message 2 (Join (Some (Num 7)) None None None (Some True)))) (Num 7) =
     Some [\<lparr>ws = 2, language = ''English'', sessionId = ''generated'',
            enableAudio = False, isOrganizer = True\<rparr>]"
proof -
  have h1: "v_eventId (vars (run demo_env initial_state evs2) 1) = Num 7" by code_simp
  have h2: "connections_of (run demo_env initial_state evs2) (Num 7) = [old1]" by code_simp
  have h3: "sessionId old1 = v_sessionId (vars (run demo_env initial_state evs2) 1)" by code_simp
  have h4: "fst (resolve_session demo_env None (step demo_env (run demo_env initial_state evs2) (Closed 1))) = ''generated''"
    by (simp add: resolve_session_def demo_env_def)
  from empty_group_never_persists[OF refl h1[symmetric] refl refl, of 2 None None None "Some True"] h1 h2 h3 h4
  show ?thesis by simp
qed

subsection \<open>The effects of one language job\<close>

lemma trace_send_original:
  "trace (send_original tr t cs st) =
     trace st @ map (\<lambda>c. Send (ws c) (TranslationMsg tr t ''English''))
                  (filter (\<lambda>c. sockets st (ws c) = OPEN) cs)"
  by (induction cs arbitrary: st) auto

lemma trace_deliver_one:
  "trace (deliver_to_client e tr t tt l c st) =
     trace st @
     (if sockets st (ws c) = OPEN then
        Send (ws c) (TranslationMsg tr t ''English'') #
        (if enableAudio c then
           Synthesize tt ''nova'' (toLowerCase (take 2 l)) #
           (case generateSpeech e (calls st) tt ''nova'' (toLowerCase (take 2 l)) of
              Inl _ \<Rightarrow> []
            | Inr a \<Rightarrow> [Send (ws c) (AudioTranslation a tt)])
         else [])
      else [])"
  by (auto simp: deliver_to_client_def Let_def call_speech_def split: sum.splits)

lemma speech_failed:
  "generateSpeech e n' x v l = Inl m \<Longrightarrow> \<exists>n. \<forall>a. speech e n v x \<noteq> Inr a"
  by (rule exI[of _ n']) (auto simp: generateSpeech_def split: sum.splits)

lemma speech_succeeded:
  "generateSpeech e n' x v l = Inr a \<Longrightarrow> \<exists>n. \<forall>m. speech e n v x \<noteq> Inl m"
  by (rule exI[of _ n']) (auto simp: generateSpeech_def split: sum.splits)

lemma deliver_one_events:
  "\<exists>xs. trace (deliver_to_client e tr t tt l c st) = trace st @ xs \<and>
        (sockets st (ws c) = OPEN \<longrightarrow> Send (ws c) (TranslationMsg tr t ''English'') \<in> set xs) \<and>
        length (filter is_synthesis xs) = (if sockets st (ws c) = OPEN \<and> enableAudio c then 1 else 0) \<and>
        (\<forall>w a x. Send w (AudioTranslation a x) \<in> set xs \<longrightarrow>
            x = tt \<and> w = ws c \<and> enableAudio c \<and> sockets st (ws c) = OPEN) \<and>
        (\<forall>w r x y. Send w (TranslationMsg r x y) \<in> set xs \<longrightarrow>
            r = tr \<and> w = ws c \<and> sockets st (ws c) = OPEN) \<and>
        (\<forall>x\<in>set xs. job_effect x) \<and>
        ((\<forall>n. \<exists>a. speech e n ''nova'' tt = Inr a) \<longrightarrow> sockets st (ws c) = OPEN \<longrightarrow> enableAudio c \<longrightarrow>
            (\<exists>a. Send (ws c) (AudioTranslation a tt) \<in> set xs)) \<and>
        ((\<forall>n. \<exists>m. speech e n ''nova'' tt = Inl m) \<longrightarrow> (\<forall>x\<in>set xs. \<not> is_audio_send x))"
  unfolding trace_deliver_one
  apply (rule exI, rule conjI, rule refl)
  by (auto split: sum.splits intro: speech_failed speech_succeeded)

lemma deliver_events:
  "\<exists>xs. trace (deliver_translation e tr t tt l cs st) = trace st @ xs \<and>
        (\<forall>c\<in>set cs. sockets st (ws c) = OPEN \<longrightarrow>
            Send (ws c) (TranslationMsg tr t ''English'') \<in> set xs) \<and>
        length (filter is_synthesis xs) =
          length (filter (\<lambda>c. sockets st (ws c) = OPEN \<and> enableAudio c) cs) \<and>
        (\<forall>w a x. Send w (AudioTranslation a x) \<in> set xs \<longrightarrow>
            x = tt \<and> (\<exists>c\<in>set cs. w = ws c \<and> enableAudio c \<and> sockets st (ws c) = OPEN)) \<and>
        (\<forall>w r x y. Send w (TranslationMsg r x y) \<in> set xs \<longrightarrow>
            r = tr \<and> (\<exists>c\<in>set cs. w = ws c \<and> sockets st (ws c) = OPEN)) \<and>
        (\<forall>x\<in>set xs. job_effect x) \<and>
        ((\<forall>n. \<exists>a. speech e n ''nova'' tt = Inr a) \<longrightarrow>
            (\<forall>c\<in>set cs. sockets st (ws c) = OPEN \<longrightarrow> enableAudio c \<longrightarrow>
               (\<exists>a. Send (ws c) (AudioTranslation a tt) \<in> set xs))) \<and>
        ((\<forall>n. \<exists>m. speech e n ''nova'' tt = Inl m) \<longrightarrow> (\<forall>x\<in>set xs. \<not> is_audio_send x))"
proof (induction cs arbitrary: st)
  case Nil
  show ?case by simp
next
  case (Cons c cs)
  define st1 where "st1 = deliver_to_client e tr t tt l c st"
  have so: "sockets st1 = sockets st" by (simp add: st1_def)
  from deliver_one_events[of e tr t tt l c st] obtain xs1 where
    x1: "trace st1 = trace st @ xs1"
        "sockets st (ws c) = OPEN \<longrightarrow> Send (ws c) (TranslationMsg tr t ''English'') \<in> set xs1"
        "length (filter is_synthesis xs1) = (if sockets st (ws c) = OPEN \<and> enableAudio c then 1 else 0)"
        "\<forall>w a x. Send w (AudioTranslation a x) \<in> set xs1 \<longrightarrow>
            x = tt \<and> w = ws c \<and> enableAudio c \<and> sockets st (ws c) = OPEN"
        "\<forall>w r x y. Send w (TranslationMsg r x y) \<in> set xs1 \<longrightarrow>
            r = tr \<and> w = ws c \<and> sockets st (ws c) = OPEN"
        "\<forall>x\<in>set xs1. job_effect x"
        "(\<forall>n. \<exists>a. speech e n ''nova'' tt = Inr a) \<longrightarrow> sockets st (ws c) = OPEN \<longrightarrow> enableAudio c \<longrightarrow>
            (\<exists>a. Send (ws c) (AudioTranslation a tt) \<in> set xs1)"
        "(\<forall>n. \<exists>m. speech e n ''nova'' tt = Inl m) \<longrightarrow> (\<forall>x\<in>set xs1. \<not> is_audio_send x)"
    unfolding st1_def by blast
  from Cons.IH[of st1] obtain xs2 where
    x2: "trace (deliver_translation e tr t tt l cs st1) = trace st1 @ xs2"
        "\<forall>c\<in>set cs. sockets st (ws c) = OPEN \<longrightarrow>
            Send (ws c) (TranslationMsg tr t ''English'') \<in> set xs2"
        "length (filter is_synthesis xs2) =
          length (filter (\<lambda>c. sockets st (ws c) = OPEN \<and> enableAudio c) cs)"
        "\<forall>w a x. Send w (AudioTranslation a x) \<in> set xs2 \<longrightarrow>
            x = tt \<and> (\<exists>c\<in>set cs. w = ws c \<and> enableAudio c \<and> sockets st (ws c) = OPEN)"
        "\<forall>w r x y. Send w (TranslationMsg r x y) \<in> set xs2 \<longrightarrow>
            r = tr \<and> (\<exists>c\<in>set cs. w = ws c \<and> sockets st (ws c) = OPEN)"
        "\<forall>x\<in>set xs2. job_effect x"
        "(\<forall>n. \<exists>a. speech e n ''nova'' tt = Inr a) \<longrightarrow>
            (\<forall>c\<in>set cs. sockets st (ws c) = OPEN \<longrightarrow> enableAudio c \<longrightarrow>
               (\<exists>a. Send (ws c) (AudioTranslation a tt) \<in> set xs2))"
        "(\<forall>n. \<exists>m. speech e n ''nova'' tt = Inl m) \<longrightarrow> (\<forall>x\<in>set xs2. \<not> is_audio_send x)"
    unfolding so by blast
  have tr: "trace (deliver_translation e tr t tt l (c # cs) st) = trace st @ (xs1 @ xs2)"
    using x1(1) x2(1) by (simp add: st1_def)
  have p1: "\<forall>c'\<in>set (c # cs). sockets st (ws c') = OPEN \<longrightarrow>
            Send (ws c') (TranslationMsg tr t ''English'') \<in> set (xs1 @ xs2)"
    using x1(2) x2(2) by auto
  have p2: "length (filter is_synthesis (xs1 @ xs2)) =
          length (filter (\<lambda>c. sockets st (ws c) = OPEN \<and> enableAudio c) (c # cs))"
    using x1(3) x2(3) by simp
  have p3: "\<forall>w a x. Send w (AudioTranslation a x) \<in> set (xs1 @ xs2) \<longrightarrow>
            x = tt \<and> (\<exists>c'\<in>set (c # cs). w = ws c' \<and> enableAudio c' \<and> sockets st (ws c') = OPEN)"
    using x1(4) x2(4) by auto
  have p4: "\<forall>w r x y. Send w (TranslationMsg r x y) \<in> set (xs1 @ xs2) \<longrightarrow>
            r = tr \<and> (\<exists>c'\<in>set (c # cs). w = ws c' \<and> sockets st (ws c') = OPEN)"
  proof (intro allI impI)
    fix w r x y
    assume "Send w (TranslationMsg r x y) \<in> set (xs1 @ xs2)"
    then consider "Send w (TranslationMsg r x y) \<in> set xs1" | "Send w (TranslationMsg r x y) \<in> set xs2"
      by auto
    then show "r = tr \<and> (\<exists>c'\<in>set (c # cs). w = ws c' \<and> sockets st (ws c') = OPEN)"
    proof cases
      case 1
      with x1(5) have "r = tr \<and> w = ws c \<and> sockets st (ws c) = OPEN" by blast
      then show ?thesis by simp
    next
      case 2
      with x2(5) have "r = tr \<and> (\<exists>c\<in>set cs. w = ws c \<and> sockets st (ws c) = OPEN)" by blast
      then show ?thesis by auto
    qed
  qed
  have p5: "\<forall>x\<in>set (xs1 @ xs2). job_effect x"
    using x1(6) x2(6) by auto
  have p6: "(\<forall>n. \<exists>a. speech e n ''nova'' tt = Inr a) \<longrightarrow>
            (\<forall>c'\<in>set (c # cs). sockets st (ws c') = OPEN \<longrightarrow> enableAudio c' \<longrightarrow>
               (\<exists>a. Send (ws c') (AudioTranslation a tt) \<in> set (xs1 @ xs2)))"
    using x1(7) x2(7) by auto
  have p7: "(\<forall>n. \<exists>m. speech e n ''nova'' tt = Inl m) \<longrightarrow> (\<forall>x\<in>set (xs1 @ xs2). \<not> is_audio_send x)"
    using x1(8) x2(8) by auto
  show ?case
    apply (rule exI[of _ "xs1 @ xs2"])
    using tr p1 p2 p3 p4 p5 p6 p7 by blast
qed

lemma store_translation_spec:
  assumes "store_translation e ins st = (rec, st1)"
  shows "trace st1 = trace st @ [Stored rec]" "sockets st1 = sockets st"
    "activeConnections st1 = activeConnections st" "calls st1 = calls st"
    "translationsMap (storage st1) = translationsMap (storage st) @ [rec]"
    "eventId rec = eventId ins" "originalText rec = originalText ins"
    "translatedText rec = translatedText ins" "tr_language rec = tr_language ins"
    "tr_id rec = translationCurrentId (storage st)"
    "events (storage st1) = events (storage st)"
  using assms by (auto simp: store_translation_def createTranslation_def Let_def)

lemma job_failed:
  "language_job e k t conns (l, Inl m) st =
     (\<lparr>job_language = l, success = False, job_error = Some m\<rparr>, st)"
  by (simp add: language_job_def)

lemma job_succeeded:
  assumes "language_job e k t conns (l, Inr tt) st = (res, st')"
  shows "\<exists>rec xs. res = \<lparr>job_language = l, success = True, job_error = None\<rparr> \<and>
        trace st' = trace st @ Stored rec # xs \<and>
        translationsMap (storage st') = translationsMap (storage st) @ [rec] \<and>
        eventId rec = k \<and> originalText rec = t \<and> translatedText rec = Some tt \<and> tr_language rec = l \<and>
        (\<forall>c\<in>set conns. language c = l \<longrightarrow> sockets st (ws c) = OPEN \<longrightarrow>
            Send (ws c) (TranslationMsg rec t ''English'') \<in> set xs) \<and>
        length (filter is_synthesis xs) =
          length (filter (\<lambda>c. language c = l \<and> sockets st (ws c) = OPEN \<and> enableAudio c) conns) \<and>
        (\<forall>w a x. Send w (AudioTranslation a x) \<in> set xs \<longrightarrow>
            x = tt \<and> (\<exists>c\<in>set conns. language c = l \<and> w = ws c \<and> enableAudio c \<and> sockets st (ws c) = OPEN)) \<and>
        (\<forall>w r x y. Send w (TranslationMsg r x y) \<in> set xs \<longrightarrow>
            r = rec \<and> (\<exists>c\<in>set conns. language c = l \<and> w = ws c \<and> sockets st (ws c) = OPEN)) \<and>
        (\<forall>x\<in>set xs. job_effect x) \<and>
        ((\<forall>n. \<exists>a. speech e n ''nova'' tt = Inr a) \<longrightarrow>
            (\<forall>c\<in>set conns. language c = l \<longrightarrow> sockets st (ws c) = OPEN \<longrightarrow> enableAudio c \<longrightarrow>
               (\<exists>a. Send (ws c) (AudioTranslation a tt) \<in> set xs))) \<and>
        ((\<forall>n. \<exists>m. speech e n ''nova'' tt = Inl m) \<longrightarrow> (\<forall>x\<in>set xs. \<not> is_audio_send x))"
proof -
  obtain rec st1 where
    s: "store_translation e \<lparr>eventId = k, originalText = t, translatedText = Some tt, tr_language = l\<rparr> st = (rec, st1)"
    by (cases "store_translation e \<lparr>eventId = k, originalText = t, translatedText = Some tt, tr_language = l\<rparr> st")
  note sp = store_translation_spec[OF s]
  have st': "st' = deliver_translation e rec t tt l (filter (\<lambda>c. language c = l) conns) st1"
    and res: "res = \<lparr>job_language = l, success = True, job_error = None\<rparr>"
    using assms s by (simp_all add: language_job_def)
  from deliver_events[of e rec t tt l "filter (\<lambda>c. language c = l) conns" st1]
  obtain xs where
    x: "trace st' = trace st1 @ xs"
       "\<forall>c\<in>set (filter (\<lambda>c. language c = l) conns). sockets st1 (ws c) = OPEN \<longrightarrow>
            Send (ws c) (TranslationMsg rec t ''English'') \<in> set xs"
       "length (filter is_synthesis xs) =
          length (filter (\<lambda>c. sockets st1 (ws c) = OPEN \<and> enableAudio c) (filter (\<lambda>c. language c = l) conns))"
       "\<forall>w a x. Send w (AudioTranslation a x) \<in> set xs \<longrightarrow>
            x = tt \<and> (\<exists>c\<in>set (filter (\<lambda>c. language c = l) conns). w = ws c \<and> enableAudio c \<and> sockets st1 (ws c) = OPEN)"
       "\<forall>w r x y. Send w (TranslationMsg r x y) \<in> set xs \<longrightarrow>
            r = rec \<and> (\<exists>c\<in>set (filter (\<lambda>c. language c = l) conns). w = ws c \<and> sockets st1 (ws c) = OPEN)"
       "\<forall>x\<in>set xs. job_effect x"
       "(\<forall>n. \<exists>a. speech e n ''nova'' tt = Inr a) \<longrightarrow>
            (\<forall>c\<in>set (filter (\<lambda>c. language c = l) conns). sockets st1 (ws c) = OPEN \<longrightarrow> enableAudio c \<longrightarrow>
               (\<exists>a. Send (ws c) (AudioTranslation a tt) \<in> set xs))"
       "(\<forall>n. \<exists>m. speech e n ''nova'' tt = Inl m) \<longrightarrow> (\<forall>x\<in>set xs. \<not> is_audio_send x)"
    unfolding st' by blast
  have q0: "trace st' = trace st @ Stored rec # xs" using x(1) sp(1) by simp
  have q1: "translationsMap (storage st') = translationsMap (storage st) @ [rec]"
    using sp(5) by (simp add: st')
  have q2: "eventId rec = k \<and> originalText rec = t \<and> translatedText rec = Some tt \<and> tr_language rec = l"
    using sp(6-9) by simp
  have q3: "\<forall>c\<in>set conns. language c = l \<longrightarrow> sockets st (ws c) = OPEN \<longrightarrow>
            Send (ws c) (TranslationMsg rec t ''English'') \<in> set xs"
    using x(2) sp(2) by simp
  have q4: "length (filter is_synthesis xs) =
          length (filter (\<lambda>c. language c = l \<and> sockets st (ws c) = OPEN \<and> enableAudio c) conns)"
    using x(3) sp(2) by (simp add: conj_commute conj_left_commute)
  have q5: "\<forall>w a x. Send w (AudioTranslation a x) \<in> set xs \<longrightarrow>
            x = tt \<and> (\<exists>c\<in>set conns. language c = l \<and> w = ws c \<and> enableAudio c \<and> sockets st (ws c) = OPEN)"
    using x(4) sp(2) by simp blast
  have q6: "\<forall>w r x y. Send w (TranslationMsg r x y) \<in> set xs \<longrightarrow>
            r = rec \<and> (\<exists>c\<in>set conns. language c = l \<and> w = ws c \<and> sockets st (ws c) = OPEN)"
    using x(5) sp(2) by simp blast
  have q7: "(\<forall>n. \<exists>a. speech e n ''nova'' tt = Inr a) \<longrightarrow>
            (\<forall>c\<in>set conns. language c = l \<longrightarrow> sockets st (ws c) = OPEN \<longrightarrow> enableAudio c \<longrightarrow>
               (\<exists>a. Send (ws c) (AudioTranslation a tt) \<in> set xs))"
    using x(7) sp(2) by simp
  show ?thesis
    apply (rule exI[of _ rec], rule exI[of _ xs])
    using res q0 q1 q2 q3 q4 q5 q6 x(6) q7 x(8) by blast
qed

lemma settle_events:
  assumes "settle_jobs e k t conns jobs st = (rs, st')"
  shows "\<exists>xs recs.
        trace st' = trace st @ xs \<and>
        translationsMap (storage st') = translationsMap (storage st) @ recs \<and>
        map tr_language recs = map fst (filter (\<lambda>j. \<not> isl (snd j)) jobs) \<and>
        map job_language rs = map fst jobs \<and>
        map success rs = map (\<lambda>j. \<not> isl (snd j)) jobs \<and>
        (\<forall>x\<in>set xs. job_effect x) \<and>
        (\<forall>l tt. (l, Inr tt) \<in> set jobs \<longrightarrow>
           (\<exists>rec\<in>set recs. Stored rec \<in> set xs \<and> eventId rec = k \<and> originalText rec = t \<and>
              translatedText rec = Some tt \<and> tr_language rec = l \<and>
              (\<forall>c\<in>set conns. language c = l \<longrightarrow> sockets st (ws c) = OPEN \<longrightarrow>
                 Send (ws c) (TranslationMsg rec t ''English'') \<in> set xs))) \<and>
        length (filter is_synthesis xs) =
          sum_list (map (\<lambda>j. if isl (snd j) then 0
                              else length (filter (\<lambda>c. language c = fst j \<and> sockets st (ws c) = OPEN \<and>
                                                       enableAudio c) conns)) jobs) \<and>
        (\<forall>w a x. Send w (AudioTranslation a x) \<in> set xs \<longrightarrow>
           (\<exists>c\<in>set conns. w = ws c \<and> enableAudio c \<and> sockets st (ws c) = OPEN \<and>
              (language c, Inr x) \<in> set jobs)) \<and>
        (\<forall>w r x y. Send w (TranslationMsg r x y) \<in> set xs \<longrightarrow>
           (\<exists>c\<in>set conns. w = ws c \<and> sockets st (ws c) = OPEN \<and> tr_language r = language c \<and>
              (\<exists>tt. translatedText r = Some tt \<and> (language c, Inr tt) \<in> set jobs))) \<and>
        (\<forall>l tt. (l, Inr tt) \<in> set jobs \<longrightarrow> (\<forall>n. \<exists>a. speech e n ''nova'' tt = Inr a) \<longrightarrow>
           (\<forall>c\<in>set conns. language c = l \<longrightarrow> sockets st (ws c) = OPEN \<longrightarrow> enableAudio c \<longrightarrow>
              (\<exists>a. Send (ws c) (AudioTranslation a tt) \<in> set xs)))"
  using assms
proof (induction jobs arbitrary: st rs)
  case Nil
  then show ?case by simp
next
  case (Cons job jobs)
  obtain l r where job: "job = (l, r)" by (cases job)
  obtain res st1 where j: "language_job e k t conns (l, r) st = (res, st1)"
    by (cases "language_job e k t conns (l, r) st")
  obtain rs2 where s2: "settle_jobs e k t conns jobs st1 = (rs2, st')" and rs: "rs = res # rs2"
    using Cons.prems j job by (auto split: prod.splits)
  have so: "sockets st1 = sockets st" using frame_job[OF j] by simp
  from Cons.IH[OF s2] obtain xs2 recs2 where ih:
    "trace st' = trace st1 @ xs2 \<and>
        translationsMap (storage st') = translationsMap (storage st1) @ recs2 \<and>
        map tr_language recs2 = map fst (filter (\<lambda>j. \<not> isl (snd j)) jobs) \<and>
        map job_language rs2 = map fst jobs \<and>
        map success rs2 = map (\<lambda>j. \<not> isl (snd j)) jobs \<and>
        (\<forall>x\<in>set xs2. job_effect x) \<and>
        (\<forall>l tt. (l, Inr tt) \<in> set jobs \<longrightarrow>
           (\<exists>rec\<in>set recs2. Stored rec \<in> set xs2 \<and> eventId rec = k \<and> originalText rec = t \<and>
              translatedText rec = Some tt \<and> tr_language rec = l \<and>
              (\<forall>c\<in>set conns. language c = l \<longrightarrow> sockets st (ws c) = OPEN \<longrightarrow>
                 Send (ws c) (TranslationMsg rec t ''English'') \<in> set xs2))) \<and>
        length (filter is_synthesis xs2) =
          sum_list (map (\<lambda>j. if isl (snd j) then 0
                              else length (filter (\<lambda>c. language c = fst j \<and> sockets st (ws c) = OPEN \<and>
                                                       enableAudio c) conns)) jobs) \<and>
        (\<forall>w a x. Send w (AudioTranslation a x) \<in> set xs2 \<longrightarrow>
           (\<exists>c\<in>set conns. w = ws c \<and> enableAudio c \<and> sockets st (ws c) = OPEN \<and>
              (language c, Inr x) \<in> set jobs)) \<and>
        (\<forall>w r x y. Send w (TranslationMsg r x y) \<in> set xs2 \<longrightarrow>
           (\<exists>c\<in>set conns. w = ws c \<and> sockets st (ws c) = OPEN \<and> tr_language r = language c \<and>
              (\<exists>tt. translatedText r = Some tt \<and> (language c, Inr tt) \<in> set jobs))) \<and>
        (\<forall>l tt. (l, Inr tt) \<in> set jobs \<longrightarrow> (\<forall>n. \<exists>a. speech e n ''nova'' tt = Inr a) \<longrightarrow>
           (\<forall>c\<in>set conns. language c = l \<longrightarrow> sockets st (ws c) = OPEN \<longrightarrow> enableAudio c \<longrightarrow>
              (\<exists>a. Send (ws c) (AudioTranslation a tt) \<in> set xs2)))"
    unfolding so by blast
  show ?case
  proof (cases r)
    case (Inl m)
    then have "st1 = st" "res = \<lparr>job_language = l, success = False, job_error = Some m\<rparr>"
      using j by (simp_all add: job_failed)
    with ih rs job Inl show ?thesis
      apply (intro exI[of _ xs2] exI[of _ recs2])
      by (simp add: so)
  next
    case (Inr tt)
    from job_succeeded[OF j[unfolded Inr]] obtain rec xs1 where js:
      "res = \<lparr>job_language = l, success = True, job_error = None\<rparr>"
      "trace st1 = trace st @ Stored rec # xs1"
      "translationsMap (storage st1) = translationsMap (storage st) @ [rec]"
      "eventId rec = k" "originalText rec = t" "translatedText rec = Some tt" "tr_language rec = l"
      "\<forall>c\<in>set conns. language c = l \<longrightarrow> sockets st (ws c) = OPEN \<longrightarrow>
            Send (ws c) (TranslationMsg rec t ''English'') \<in> set xs1"
      "length (filter is_synthesis xs1) =
          length (filter (\<lambda>c. language c = l \<and> sockets st (ws c) = OPEN \<and> enableAudio c) conns)"
      "\<forall>w a x. Send w (AudioTranslation a x) \<in> set xs1 \<longrightarrow>
            x = tt \<and> (\<exists>c\<in>set conns. language c = l \<and> w = ws c \<and> enableAudio c \<and> sockets st (ws c) = OPEN)"
      "\<forall>w r x y. Send w (TranslationMsg r x y) \<in> set xs1 \<longrightarrow>
            r = rec \<and> (\<exists>c\<in>set conns. language c = l \<and> w = ws c \<and> sockets st (ws c) = OPEN)"
      "\<forall>x\<in>set xs1. job_effect x"
      "(\<forall>n. \<exists>a. speech e n ''nova'' tt = Inr a) \<longrightarrow>
            (\<forall>c\<in>set conns. language c = l \<longrightarrow> sockets st (ws c) = OPEN \<longrightarrow> enableAudio c \<longrightarrow>
               (\<exists>a. Send (ws c) (AudioTranslation a tt) \<in> set xs1))"
      by blast
    define xs where "xs = Stored rec # xs1 @ xs2"
    define recs where "recs = rec # recs2"
    have sx: "set xs = insert (Stored rec) (set xs1 \<union> set xs2)" by (simp add: xs_def)
    have a1: "trace st' = trace st @ xs" using ih js(2) by (simp add: xs_def)
    have a2: "translationsMap (storage st') = translationsMap (storage st) @ recs"
      using ih js(3) by (simp add: recs_def)
    have a3: "map tr_language recs = map fst (filter (\<lambda>j. \<not> isl (snd j)) (job # jobs))"
      using ih js(7) job Inr by (simp add: recs_def)
    have a4: "map job_language rs = map fst (job # jobs)"
      using ih js(1) job rs by simp
    have a5: "map success rs = map (\<lambda>j. \<not> isl (snd j)) (job # jobs)"
      using ih js(1) job rs Inr by simp
    have a6: "\<forall>x\<in>set xs. job_effect x" using ih js(12) by (auto simp: xs_def)
    have a7: "\<forall>l' tt'. (l', Inr tt') \<in> set (job # jobs) \<longrightarrow>
           (\<exists>rec\<in>set recs. Stored rec \<in> set xs \<and> eventId rec = k \<and> originalText rec = t \<and>
              translatedText rec = Some tt' \<and> tr_language rec = l' \<and>
              (\<forall>c\<in>set conns. language c = l' \<longrightarrow> sockets st (ws c) = OPEN \<longrightarrow>
                 Send (ws c) (TranslationMsg rec t ''English'') \<in> set xs))"
    proof (intro allI impI)
      fix l' tt' assume "(l', Inr tt') \<in> set (job # jobs)"
      then consider "l' = l" "tt' = tt" | "(l', Inr tt') \<in> set jobs" using job Inr by auto
      then show "\<exists>rec\<in>set recs. Stored rec \<in> set xs \<and> eventId rec = k \<and> originalText rec = t \<and>
              translatedText rec = Some tt' \<and> tr_language rec = l' \<and>
              (\<forall>c\<in>set conns. language c = l' \<longrightarrow> sockets st (ws c) = OPEN \<longrightarrow>
                 Send (ws c) (TranslationMsg rec t ''English'') \<in> set xs)"
      proof cases
        case 1
        show ?thesis
          apply (rule bexI[of _ rec])
          using 1 js(4-8) by (auto simp: sx recs_def)
      next
        case 2
        with ih obtain rec' where "rec' \<in> set recs2" "Stored rec' \<in> set xs2 \<and> eventId rec' = k \<and> originalText rec' = t \<and>
              translatedText rec' = Some tt' \<and> tr_language rec' = l' \<and>
              (\<forall>c\<in>set conns. language c = l' \<longrightarrow> sockets st (ws c) = OPEN \<longrightarrow>
                 Send (ws c) (TranslationMsg rec' t ''English'') \<in> set xs2)" by blast
        then show ?thesis
          apply (intro bexI[of _ rec'])
          by (auto simp: sx recs_def)
      qed
    qed
    have a8: "length (filter is_synthesis xs) =
          sum_list (map (\<lambda>j. if isl (snd j) then 0
                              else length (filter (\<lambda>c. language c = fst j \<and> sockets st (ws c) = OPEN \<and>
                                                       enableAudio c) conns)) (job # jobs))"
      using ih js(9) job Inr by (simp add: xs_def)
    have a9: "\<forall>w a x. Send w (AudioTranslation a x) \<in> set xs \<longrightarrow>
           (\<exists>c\<in>set conns. w = ws c \<and> enableAudio c \<and> sockets st (ws c) = OPEN \<and>
              (language c, Inr x) \<in> set (job # jobs))"
    proof (intro allI impI)
      fix w a x assume "Send w (AudioTranslation a x) \<in> set xs"
      then consider "Send w (AudioTranslation a x) \<in> set xs1" | "Send w (AudioTranslation a x) \<in> set xs2"
        by (auto simp: sx)
      then show "\<exists>c\<in>set conns. w = ws c \<and> enableAudio c \<and> sockets st (ws c) = OPEN \<and>
              (language c, Inr x) \<in> set (job # jobs)"
      proof cases
        case 1
        with js(10) have "x = tt \<and> (\<exists>c\<in>set conns. language c = l \<and> w = ws c \<and> enableAudio c \<and> sockets st (ws c) = OPEN)"
          by blast
        then show ?thesis using job Inr by auto
      next
        case 2
        with ih have "\<exists>c\<in>set conns. w = ws c \<and> enableAudio c \<and> sockets st (ws c) = OPEN \<and>
              (language c, Inr x) \<in> set jobs" by blast
        then show ?thesis by auto
      qed
    qed
    have a10: "\<forall>w r x y. Send w (TranslationMsg r x y) \<in> set xs \<longrightarrow>
           (\<exists>c\<in>set conns. w = ws c \<and> sockets st (ws c) = OPEN \<and> tr_language r = language c \<and>
              (\<exists>tt. translatedText r = Some tt \<and> (language c, Inr tt) \<in> set (job # jobs)))"
    proof (intro allI impI)
      fix w r' x y assume "Send w (TranslationMsg r' x y) \<in> set xs"
      then consider "Send w (TranslationMsg r' x y) \<in> set xs1" | "Send w (TranslationMsg r' x y) \<in> set xs2"
        by (auto simp: sx)
      then show "\<exists>c\<in>set conns. w = ws c \<and> sockets st (ws c) = OPEN \<and> tr_language r' = language c \<and>
              (\<exists>tt. translatedText r' = Some tt \<and> (language c, Inr tt) \<in> set (job # jobs))"
      proof cases
        case 1
        with js(11) have "r' = rec \<and> (\<exists>c\<in>set conns. language c = l \<and> w = ws c \<and> sockets st (ws c) = OPEN)"
          by blast
        then show ?thesis using job Inr js(6,7) by auto
      next
        case 2
        with ih have "\<exists>c\<in>set conns. w = ws c \<and> sockets st (ws c) = OPEN \<and> tr_language r' = language c \<and>
              (\<exists>tt. translatedText r' = Some tt \<and> (language c, Inr tt) \<in> set jobs)" by blast
        then show ?thesis by auto
      qed
    qed
    have a11: "\<forall>l' tt'. (l', Inr tt') \<in> set (job # jobs) \<longrightarrow> (\<forall>n. \<exists>a. speech e n ''nova'' tt' = Inr a) \<longrightarrow>
           (\<forall>c\<in>set conns. language c = l' \<longrightarrow> sockets st (ws c) = OPEN \<longrightarrow> enableAudio c \<longrightarrow>
              (\<exists>a. Send (ws c) (AudioTranslation a tt') \<in> set xs))"
    proof (intro allI impI ballI)
      fix l' tt' c
      assume h: "(l', Inr tt') \<in> set (job # jobs)" "\<forall>n. \<exists>a. speech e n ''nova'' tt' = Inr a"
        "c \<in> set conns" "language c = l'" "sockets st (ws c) = OPEN" "enableAudio c"
      from h(1) consider "l' = l" "tt' = tt" | "(l', Inr tt') \<in> set jobs" using job Inr by auto
      then show "\<exists>a. Send (ws c) (AudioTranslation a tt') \<in> set xs"
      proof cases
        case 1
        with js(13) h obtain a where "Send (ws c) (AudioTranslation a tt') \<in> set xs1" by blast
        then show ?thesis by (auto simp: sx)
      next
        case 2
        with ih h obtain a where "Send (ws c) (AudioTranslation a tt') \<in> set xs2" by blast
        then show ?thesis by (auto simp: sx)
      qed
    qed
    show ?thesis
      apply (rule exI[of _ xs], rule exI[of _ recs])
      using a1 a2 a3 a4 a5 a6 a7 a8 a9 a10 a11 by blast
  qed
qed

subsection \<open>The effects of a whole segment\<close>

lemma count_by_map:
  "map f xs = map g ys \<Longrightarrow> length (filter f xs) = length (filter g ys)"
proof (induction xs arbitrary: ys)
  case Nil then show ?case by simp
next
  case (Cons x xs)
  then obtain y ys' where "ys = y # ys'" by (cases ys) auto
  with Cons show ?case by auto
qed

lemma count_by_map_not:
  "map f xs = map g ys \<Longrightarrow> length (filter (\<lambda>x. \<not> f x) xs) = length (filter (\<lambda>y. \<not> g y) ys)"
proof (induction xs arbitrary: ys)
  case Nil then show ?case by simp
next
  case (Cons x xs)
  then obtain y ys' where "ys = y # ys'" by (cases ys) auto
  with Cons show ?case by auto
qed

lemma map_fst_translate_all[simp]: "map fst (translate_all e n t ls) = ls"
  by (induction ls arbitrary: n) auto

lemma fan_out_events:
  assumes "conns = connections_of st k" and "jobs = translate_all e (calls st) t (target_languages st k)"
      and "st' = fan_out e w k t st"
      and "src = \<lparr>eventId = k, originalText = t, translatedText = None, tr_language = ''English'',
                    tr_id = translationCurrentId (storage st),
                    timestamp = translation_time e (translationCurrentId (storage st))\<rparr>"
      and "sc = length (filter (\<lambda>j. \<not> isl (snd j)) jobs)"
      and "fc = length (filter (\<lambda>j. isl (snd j)) jobs)"
  shows "\<exists>xs recs.
        trace st' = trace st @
          [Stored src, Send w (ProcessingStatus StTranscribed TranscribedOk (Some t) None)] @
          map (\<lambda>c. Send (ws c) (TranslationMsg src t ''English''))
            (filter (\<lambda>c. language c = ''English'' \<and> sockets st (ws c) = OPEN) conns) @
          map (TranslateCall t) (target_languages st k) @ xs @
          [Send w (ProcessingStatus StComplete (ProcessingComplete sc fc) (Some t)
             (Some \<lparr>successfulTranslations = sc, failedTranslations = fc,
                    totalLanguages = length (uniq (map language conns))\<rparr>))] \<and>
        translationsMap (storage st') = translationsMap (storage st) @ src # recs \<and>
        map tr_language recs = map fst (filter (\<lambda>j. \<not> isl (snd j)) jobs) \<and>
        (\<forall>x\<in>set xs. job_effect x) \<and>
        (\<forall>l tt. (l, Inr tt) \<in> set jobs \<longrightarrow>
           (\<exists>rec\<in>set recs. Stored rec \<in> set xs \<and> eventId rec = k \<and> originalText rec = t \<and>
              translatedText rec = Some tt \<and> tr_language rec = l \<and>
              (\<forall>c\<in>set conns. language c = l \<longrightarrow> sockets st (ws c) = OPEN \<longrightarrow>
                 Send (ws c) (TranslationMsg rec t ''English'') \<in> set xs))) \<and>
        length (filter is_synthesis xs) =
          sum_list (map (\<lambda>j. if isl (snd j) then 0
                              else length (filter (\<lambda>c. language c = fst j \<and> sockets st (ws c) = OPEN \<and>
                                                       enableAudio c) conns)) jobs) \<and>
        (\<forall>w a x. Send w (AudioTranslation a x) \<in> set xs \<longrightarrow>
           (\<exists>c\<in>set conns. w = ws c \<and> enableAudio c \<and> sockets st (ws c) = OPEN \<and>
              (language c, Inr x) \<in> set jobs)) \<and>
        (\<forall>w r x y. Send w (TranslationMsg r x y) \<in> set xs \<longrightarrow>
           (\<exists>c\<in>set conns. w = ws c \<and> sockets st (ws c) = OPEN \<and> tr_language r = language c \<and>
              (\<exists>tt. translatedText r = Some tt \<and> (language c, Inr tt) \<in> set jobs))) \<and>
        (\<forall>l tt. (l, Inr tt) \<in> set jobs \<longrightarrow> (\<forall>n. \<exists>a. speech e n ''nova'' tt = Inr a) \<longrightarrow>
           (\<forall>c\<in>set conns. language c = l \<longrightarrow> sockets st (ws c) = OPEN \<longrightarrow> enableAudio c \<longrightarrow>
              (\<exists>a. Send (ws c) (AudioTranslation a tt) \<in> set xs)))"
proof -
  obtain src' st1 where s: "store_translation e
       \<lparr>eventId = k, originalText = t, translatedText = None, tr_language = ''English''\<rparr> st = (src', st1)"
    by (cases "store_translation e
       \<lparr>eventId = k, originalText = t, translatedText = None, tr_language = ''English''\<rparr> st")
  note sp = store_translation_spec[OF s]
  have src': "src' = src"
    using s assms(4) by (auto simp: store_translation_def createTranslation_def Let_def)
  define st2 where "st2 = send w (ProcessingStatus StTranscribed TranscribedOk (Some t) None) st1"
  define st3 where "st3 = send_original src t (filter (\<lambda>c. language c = ''English'') conns) st2"
  have c2: "connections_of st2 k = conns"
    using sp(3) assms(1) by (simp add: st2_def connections_of_def)
  have t3: "trace st3 = trace st @
          [Stored src, Send w (ProcessingStatus StTranscribed TranscribedOk (Some t) None)] @
          map (\<lambda>c. Send (ws c) (TranslationMsg src t ''English''))
            (filter (\<lambda>c. language c = ''English'' \<and> sockets st (ws c) = OPEN) conns)"
    using sp(1,2) src' by (simp add: st3_def st2_def trace_send_original conj_commute)
  have f3: "sockets st3 = sockets st" "calls st3 = calls st"
    "translationsMap (storage st3) = translationsMap (storage st) @ [src]"
    using sp(2,4,5) src' by (simp_all add: st3_def st2_def)
  define st4 where "st4 = st3\<lparr>trace := trace st3 @ map (TranslateCall t) (target_languages st k),
         calls := calls st3 + length (target_languages st k)\<rparr>"
  have st: "start_translations e t (target_languages st k) st3 = (jobs, st4)"
    using assms(2) f3(2) by (simp add: start_translations_def st4_def)
  obtain rs st5 where se: "settle_jobs e k t conns jobs st4 = (rs, st5)"
    by (cases "settle_jobs e k t conns jobs st4")
  have f4: "sockets st4 = sockets st" "translationsMap (storage st4) = translationsMap (storage st) @ [src]"
    "trace st4 = trace st3 @ map (TranslateCall t) (target_languages st k)"
    using f3 by (simp_all add: st4_def)
  have tl: "filter (\<lambda>lang. lang \<noteq> ''English'') (uniq (map language conns)) = target_languages st k"
    using assms(1) by (simp add: target_languages_def)
  from settle_events[OF se] obtain xs recs where ev:
    "trace st5 = trace st4 @ xs"
    "translationsMap (storage st5) = translationsMap (storage st4) @ recs"
    "map success rs = map (\<lambda>j. \<not> isl (snd j)) jobs"
    "map tr_language recs = map fst (filter (\<lambda>j. \<not> isl (snd j)) jobs) \<and>
        (\<forall>x\<in>set xs. job_effect x) \<and>
        (\<forall>l tt. (l, Inr tt) \<in> set jobs \<longrightarrow>
           (\<exists>rec\<in>set recs. Stored rec \<in> set xs \<and> eventId rec = k \<and> originalText rec = t \<and>
              translatedText rec = Some tt \<and> tr_language rec = l \<and>
              (\<forall>c\<in>set conns. language c = l \<longrightarrow> sockets st (ws c) = OPEN \<longrightarrow>
                 Send (ws c) (TranslationMsg rec t ''English'') \<in> set xs))) \<and>
        length (filter is_synthesis xs) =
          sum_list (map (\<lambda>j. if isl (snd j) then 0
                              else length (filter (\<lambda>c. language c = fst j \<and> sockets st (ws c) = OPEN \<and>
                                                       enableAudio c) conns)) jobs) \<and>
        (\<forall>w a x. Send w (AudioTranslation a x) \<in> set xs \<longrightarrow>
           (\<exists>c\<in>set conns. w = ws c \<and> enableAudio c \<and> sockets st (ws c) = OPEN \<and>
              (language c, Inr x) \<in> set jobs)) \<and>
        (\<forall>w r x y. Send w (TranslationMsg r x y) \<in> set xs \<longrightarrow>
           (\<exists>c\<in>set conns. w = ws c \<and> sockets st (ws c) = OPEN \<and> tr_language r = language c \<and>
              (\<exists>tt. translatedText r = Some tt \<and> (language c, Inr tt) \<in> set jobs))) \<and>
        (\<forall>l tt. (l, Inr tt) \<in> set jobs \<longrightarrow> (\<forall>n. \<exists>a. speech e n ''nova'' tt = Inr a) \<longrightarrow>
           (\<forall>c\<in>set conns. language c = l \<longrightarrow> sockets st (ws c) = OPEN \<longrightarrow> enableAudio c \<longrightarrow>
              (\<exists>a. Send (ws c) (AudioTranslation a tt) \<in> set xs)))"
    unfolding f4(1) by blast
  have n1: "length (filter success rs) = sc"
    using count_by_map[OF ev(3)] assms(5) by simp
  have n2: "length (filter (\<lambda>r. \<not> success r) rs) = fc"
    using count_by_map_not[OF ev(3)] assms(6) by simp
  have st': "st' = send w (ProcessingStatus StComplete (ProcessingComplete sc fc) (Some t)
             (Some \<lparr>successfulTranslations = sc, failedTranslations = fc,
                    totalLanguages = length (uniq (map language conns))\<rparr>)) st5"
    using assms(3) s src' c2 tl st se n1 n2
    by (simp add: fan_out_def Let_def st2_def[symmetric] st3_def[symmetric])
  have tr: "trace st' = trace st @
          [Stored src, Send w (ProcessingStatus StTranscribed TranscribedOk (Some t) None)] @
          map (\<lambda>c. Send (ws c) (TranslationMsg src t ''English''))
            (filter (\<lambda>c. language c = ''English'' \<and> sockets st (ws c) = OPEN) conns) @
          map (TranslateCall t) (target_languages st k) @ xs @
          [Send w (ProcessingStatus StComplete (ProcessingComplete sc fc) (Some t)
             (Some \<lparr>successfulTranslations = sc, failedTranslations = fc,
                    totalLanguages = length (uniq (map language conns))\<rparr>))]"
    using st' ev(1) f4(3) t3 by simp
  have sto: "translationsMap (storage st') = translationsMap (storage st) @ src # recs"
    using st' ev(2) f4(2) by simp
  show ?thesis
    apply (rule exI[of _ xs], rule exI[of _ recs])
    using tr sto ev(4) by blast
qed

lemma accepted_step:
  assumes "segment_accepted e st w k a t"
  shows "step e st (Message w (AudioData (Some k) (AudioString a))) = fan_out e w k t (transcribed_state w a st)"
proof -
  from assms have h: "getEvent (storage st) k \<noteq> None" "authorized st k (v_sessionId (vars st w))"
    "50 \<le> length a" "100 \<le> decoded_length e a" "whisper e (calls st) a = Inr t" "\<not> blank t"
    by (simp_all add: segment_accepted_def)
  from h(3) have ne: "a \<noteq> []" by auto
  have tr: "call_transcribe e a (send w (ProcessingStatus StProcessing AudioReceived None None) st) =
       (Inr t, transcribed_state w a st)"
    using h(4,5) by (simp add: call_transcribe_def transcribeAudio_def transcribed_state_def)
  have "process_audio e w k a st = fan_out e w k t (transcribed_state w a st)"
    using h(3,6) tr by (simp add: process_audio_def)
  then show ?thesis using h(1,2) ne by (auto simp: handle_audio_data_def)
qed

lemma transcribed_state_frame:
  "trace (transcribed_state w a st) =
     trace st @ [Send w (ProcessingStatus StProcessing AudioReceived None None), Transcribe a]"
  "sockets (transcribed_state w a st) = sockets st"
  "storage (transcribed_state w a st) = storage st"
  "calls (transcribed_state w a st) = Suc (calls st)"
  "connections_of (transcribed_state w a st) k = connections_of st k"
  "target_languages (transcribed_state w a st) k = target_languages st k"
  by (simp_all add: transcribed_state_def connections_of_def target_languages_def)

lemma segment_events:
  assumes "segment_accepted e st w k a t"
      and "conns = connections_of st k" and "jobs = translation_outcomes e st k t"
      and "st' = step e st (Message w (AudioData (Some k) (AudioString a)))"
      and "src = \<lparr>eventId = k, originalText = t, translatedText = None, tr_language = ''English'',
                    tr_id = translationCurrentId (storage st),
                    timestamp = translation_time e (translationCurrentId (storage st))\<rparr>"
      and "sc = length (filter (\<lambda>j. \<not> isl (snd j)) jobs)"
      and "fc = length (filter (\<lambda>j. isl (snd j)) jobs)"
  shows "\<exists>xs recs.
        effects_of e st (Message w (AudioData (Some k) (AudioString a))) =
          [Send w (ProcessingStatus StProcessing AudioReceived None None), Transcribe a,
           Stored src, Send w (ProcessingStatus StTranscribed TranscribedOk (Some t) None)] @
          map (\<lambda>c. Send (ws c) (TranslationMsg src t ''English''))
            (filter (\<lambda>c. language c = ''English'' \<and> sockets st (ws c) = OPEN) conns) @
          map (TranslateCall t) (target_languages st k) @ xs @
          [Send w (ProcessingStatus StComplete (ProcessingComplete sc fc) (Some t)
             (Some \<lparr>successfulTranslations = sc, failedTranslations = fc,
                    totalLanguages = length (uniq (map language conns))\<rparr>))] \<and>
        translationsMap (storage st') = translationsMap (storage st) @ src # recs \<and>
        map tr_language recs = map fst (filter (\<lambda>j. \<not> isl (snd j)) jobs) \<and>
        (\<forall>x\<in>set xs. job_effect x) \<and>
        (\<forall>l tt. (l, Inr tt) \<in> set jobs \<longrightarrow>
           (\<exists>rec\<in>set recs. Stored rec \<in> set xs \<and> eventId rec = k \<and> originalText rec = t \<and>
              translatedText rec = Some tt \<and> tr_language rec = l \<and>
              (\<forall>c\<in>set conns. language c = l \<longrightarrow> sockets st (ws c) = OPEN \<longrightarrow>
                 Send (ws c) (TranslationMsg rec t ''English'') \<in> set xs))) \<and>
        length (filter is_synthesis xs) =
          sum_list (map (\<lambda>j. if isl (snd j) then 0
                              else length (filter (\<lambda>c. language c = fst j \<and> sockets st (ws c) = OPEN \<and>
                                                       enableAudio c) conns)) jobs) \<and>
        (\<forall>w a x. Send w (AudioTranslation a x) \<in> set xs \<longrightarrow>
           (\<exists>c\<in>set conns. w = ws c \<and> enableAudio c \<and> sockets st (ws c) = OPEN \<and>
              (language c, Inr x) \<in> set jobs)) \<and>
        (\<forall>w r x y. Send w (TranslationMsg r x y) \<in> set xs \<longrightarrow>
           (\<exists>c\<in>set conns. w = ws c \<and> sockets st (ws c) = OPEN \<and> tr_language r = language c \<and>
              (\<exists>tt. translatedText r = Some tt \<and> (language c, Inr tt) \<in> set jobs))) \<and>
        (\<forall>l tt. (l, Inr tt) \<in> set jobs \<longrightarrow> (\<forall>n. \<exists>a. speech e n ''nova'' tt = Inr a) \<longrightarrow>
           (\<forall>c\<in>set conns. language c = l \<longrightarrow> sockets st (ws c) = OPEN \<longrightarrow> enableAudio c \<longrightarrow>
              (\<exists>a. Send (ws c) (AudioTranslation a tt) \<in> set xs)))"
proof -
  define st1 where "st1 = transcribed_state w a st"
  note fr = transcribed_state_frame[of w a st, folded st1_def]
  have s': "st' = fan_out e w k t st1"
    using accepted_step[OF assms(1)] assms(4) by (simp add: st1_def)
  have j: "jobs = translate_all e (calls st1) t (target_languages st1 k)"
    using assms(3) fr(4) fr(6)[of k] by (simp add: translation_outcomes_def)
  have c: "conns = connections_of st1 k" using assms(2) fr(5)[of k] by simp
  have sr: "src = \<lparr>eventId = k, originalText = t, translatedText = None, tr_language = ''English'',
                    tr_id = translationCurrentId (storage st1),
                    timestamp = translation_time e (translationCurrentId (storage st1))\<rparr>"
    using assms(5) fr(3) by simp
  from fan_out_events[OF c j s' sr assms(6,7)]
  obtain xs recs where f:
    "trace st' = trace st1 @
          [Stored src, Send w (ProcessingStatus StTranscribed TranscribedOk (Some t) None)] @
          map (\<lambda>c. Send (ws c) (TranslationMsg src t ''English''))
            (filter (\<lambda>c. language c = ''English'' \<and> sockets st (ws c) = OPEN) conns) @
          map (TranslateCall t) (target_languages st k) @ xs @
          [Send w (ProcessingStatus StComplete (ProcessingComplete sc fc) (Some t)
             (Some \<lparr>successfulTranslations = sc, failedTranslations = fc,
                    totalLanguages = length (uniq (map language conns))\<rparr>))]"
    "translationsMap (storage st') = translationsMap (storage st) @ src # recs \<and>
        map tr_language recs = map fst (filter (\<lambda>j. \<not> isl (snd j)) jobs) \<and>
        (\<forall>x\<in>set xs. job_effect x) \<and>
        (\<forall>l tt. (l, Inr tt) \<in> set jobs \<longrightarrow>
           (\<exists>rec\<in>set recs. Stored rec \<in> set xs \<and> eventId rec = k \<and> originalText rec = t \<and>
              translatedText rec = Some tt \<and> tr_language rec = l \<and>
              (\<forall>c\<in>set conns. language c = l \<longrightarrow> sockets st (ws c) = OPEN \<longrightarrow>
                 Send (ws c) (TranslationMsg rec t ''English'') \<in> set xs))) \<and>
        length (filter is_synthesis xs) =
          sum_list (map (\<lambda>j. if isl (snd j) then 0
                              else length (filter (\<lambda>c. language c = fst j \<and> sockets st (ws c) = OPEN \<and>
                                                       enableAudio c) conns)) jobs) \<and>
        (\<forall>w a x. Send w (AudioTranslation a x) \<in> set xs \<longrightarrow>
           (\<exists>c\<in>set conns. w = ws c \<and> enableAudio c \<and> sockets st (ws c) = OPEN \<and>
              (language c, Inr x) \<in> set jobs)) \<and>
        (\<forall>w r x y. Send w (TranslationMsg r x y) \<in> set xs \<longrightarrow>
           (\<exists>c\<in>set conns. w = ws c \<and> sockets st (ws c) = OPEN \<and> tr_language r = language c \<and>
              (\<exists>tt. translatedText r = Some tt \<and> (language c, Inr tt) \<in> set jobs))) \<and>
        (\<forall>l tt. (l, Inr tt) \<in> set jobs \<longrightarrow> (\<forall>n. \<exists>a. speech e n ''nova'' tt = Inr a) \<longrightarrow>
           (\<forall>c\<in>set conns. language c = l \<longrightarrow> sockets st (ws c) = OPEN \<longrightarrow> enableAudio c \<longrightarrow>
              (\<exists>a. Send (ws c) (AudioTranslation a tt) \<in> set xs)))"
    unfolding fr(2) fr(3) fr(6) by blast
  have e: "effects_of e st (Message w (AudioData (Some k) (AudioString a))) =
          [Send w (ProcessingStatus StProcessing AudioReceived None None), Transcribe a,
           Stored src, Send w (ProcessingStatus StTranscribed TranscribedOk (Some t) None)] @
          map (\<lambda>c. Send (ws c) (TranslationMsg src t ''English''))
            (filter (\<lambda>c. language c = ''English'' \<and> sockets st (ws c) = OPEN) conns) @
          map (TranslateCall t) (target_languages st k) @ xs @
          [Send w (ProcessingStatus StComplete (ProcessingComplete sc fc) (Some t)
             (Some \<lparr>successfulTranslations = sc, failedTranslations = fc,
                    totalLanguages = length (uniq (map language conns))\<rparr>))]"
    using f(1) fr(1) assms(4) by (simp add: effects_of_def)
  show ?thesis
    apply (rule exI[of _ xs], rule exI[of _ recs])
    using e f(2) by blast
qed

subsection \<open>Ordering, counts and routing of the fan-out\<close>

lemma uniq_set[simp]: "set (uniq xs) = set xs" "distinct (uniq xs)"
  by (simp_all add: uniq_def)

lemma target_languages_set:
  "set (target_languages st k) = language ` set (connections_of st k) - {''English''}"
  "distinct (target_languages st k)"
  by (auto simp: target_languages_def)

lemma job_effect_kinds:
  "job_effect x \<Longrightarrow> \<not> is_completion x \<and> \<not> is_translate_call x"
  by (cases x rule: job_effect.cases) auto

text \<open>
  C4. For a segment that gets past transcription, the first effect on the store or the
  translation service is the creation of the source-language record (English, no
  translated text): it is the third effect of the handler, after the acknowledgment and
  the transcription call, and every translation call and every other record creation
  comes later in the trace.
\<close>

theorem source_record_precedes_translation:
  assumes "segment_accepted e st w k a t"
      and "E = effects_of e st (Message w (AudioData (Some k) (AudioString a)))"
  shows "\<exists>src. 2 < length E \<and> E ! 2 = Stored src \<and>
           eventId src = k \<and> originalText src = t \<and> translatedText src = None \<and>
           tr_language src = ''English'' \<and>
           src \<in> set (translationsMap (storage (step e st (Message w (AudioData (Some k) (AudioString a)))))) \<and>
           (\<forall>i<length E. is_translate_call (E ! i) \<or> is_stored (E ! i) \<longrightarrow> 2 \<le> i)"
proof -
  define src where "src = \<lparr>eventId = k, originalText = t, translatedText = None, tr_language = ''English'',
                    tr_id = translationCurrentId (storage st),
                    timestamp = translation_time e (translationCurrentId (storage st))\<rparr>"
  from segment_events[OF assms(1) refl refl refl src_def refl refl]
  obtain rest recs where
    e: "E = [Send w (ProcessingStatus StProcessing AudioReceived None None), Transcribe a,
             Stored src] @ rest"
    and s: "translationsMap (storage (step e st (Message w (AudioData (Some k) (AudioString a))))) =
              translationsMap (storage st) @ src # recs"
    unfolding assms(2) by auto
  have "\<forall>i<length E. is_translate_call (E ! i) \<or> is_stored (E ! i) \<longrightarrow> 2 \<le> i"
  proof (intro allI impI)
    fix i assume "i < length E" and h: "is_translate_call (E ! i) \<or> is_stored (E ! i)"
    show "2 \<le> i"
    proof (rule ccontr)
      assume "\<not> 2 \<le> i"
      then have "i = 0 \<or> i = 1" by auto
      with h e show False by auto
    qed
  qed
  then show ?thesis
    apply (intro exI[of _ src])
    using e s by (simp add: src_def)
qed

theorem source_record_witness:
  "segment_accepted demo_env conference 1 (Num 1) clip ''Hello'' \<and>
   (\<exists>src. effects_of demo_env conference (Message 1 (AudioData (Some (Num 1)) (AudioString clip))) ! 2
            = Stored src \<and> tr_language src = ''English'' \<and> translatedText src = None)"
proof -
  have h: "segment_accepted demo_env conference 1 (Num 1) clip ''Hello''"
    by code_simp
  from source_record_precedes_translation[OF h refl] h
  show ?thesis by blast
qed

lemma length_without:
  "distinct ys \<Longrightarrow> length ys = length (filter (\<lambda>x. x \<noteq> v) ys) + (if v \<in> set ys then 1 else 0)"
  by (induction ys) auto

lemma total_languages:
  "length (uniq (map language (connections_of st k))) =
     length (target_languages st k) +
     (if ''English'' \<in> language ` set (connections_of st k) then 1 else 0)"
  using length_without[of "uniq (map language (connections_of st k))" "''English''"]
  by (simp add: target_languages_def)

lemma outcomes_languages[simp]: "map fst (translation_outcomes e st k t) = target_languages st k"
  by (simp add: translation_outcomes_def)

lemma outcomes_split:
  "length (filter (\<lambda>j. \<not> isl (snd j)) (translation_outcomes e st k t)) +
   length (filter (\<lambda>j. isl (snd j)) (translation_outcomes e st k t)) = length (target_languages st k)"
proof -
  have "length (translation_outcomes e st k t) = length (target_languages st k)"
    by (metis length_map outcomes_languages)
  then show ?thesis
    using sum_length_filter_compl[of "\<lambda>j. \<not> isl (snd j)" "translation_outcomes e st k t"] by simp
qed

text \<open>
  C5 as stated fails: with the organizer registered in English and one Spanish listener,
  one language is attempted and the status reports two languages in total.
\<close>

theorem completion_total_counterexample:
  "segment_accepted demo_env conference 1 (Num 1) clip ''Hello'' \<and>
   target_languages conference (Num 1) = [''Spanish''] \<and>
   last (effects_of demo_env conference (Message 1 (AudioData (Some (Num 1)) (AudioString clip)))) =
     Send 1 (ProcessingStatus StComplete (ProcessingComplete 1 0) (Some ''Hello'')
       (Some \<lparr>successfulTranslations = 1, failedTranslations = 0, totalLanguages = 2\<rparr>))"
  by code_simp

text \<open>
  C5, amended. A segment that reaches the fan-out ends with exactly one completion
  status, sent to the submitting connection as the last effect. Its succeeded and failed
  counts add up to the number of distinct target languages. Its total language count is
  the number of distinct registered languages with the source language included: the
  number of target languages, plus one when some connection is registered in English.
\<close>

theorem completion_status_counts:
  assumes "segment_accepted e st w k a t"
      and "E = effects_of e st (Message w (AudioData (Some k) (AudioString a)))"
      and "jobs = translation_outcomes e st k t"
      and "sc = length (filter (\<lambda>j. \<not> isl (snd j)) jobs)"
      and "fc = length (filter (\<lambda>j. isl (snd j)) jobs)"
      and "tot = length (target_languages st k) +
             (if ''English'' \<in> language ` set (connections_of st k) then 1 else 0)"
  shows "length (filter is_completion E) = 1 \<and>
         last E = Send w (ProcessingStatus StComplete (ProcessingComplete sc fc) (Some t)
                    (Some \<lparr>successfulTranslations = sc, failedTranslations = fc,
                           totalLanguages = tot\<rparr>)) \<and>
         sc + fc = length (target_languages st k)"
proof -
  from segment_events[OF assms(1) refl assms(3) refl refl assms(4,5)]
  obtain xs where
    e: "E = [Send w (ProcessingStatus StProcessing AudioReceived None None), Transcribe a,
           Stored \<lparr>eventId = k, originalText = t, translatedText = None, tr_language = ''English'',
                    tr_id = translationCurrentId (storage st),
                    timestamp = translation_time e (translationCurrentId (storage st))\<rparr>,
           Send w (ProcessingStatus StTranscribed TranscribedOk (Some t) None)] @
          map (\<lambda>c. Send (ws c) (TranslationMsg \<lparr>eventId = k, originalText = t, translatedText = None, tr_language = ''English'',
                    tr_id = translationCurrentId (storage st),
                    timestamp = translation_time e (translationCurrentId (storage st))\<rparr> t ''English''))
            (filter (\<lambda>c. language c = ''English'' \<and> sockets st (ws c) = OPEN) (connections_of st k)) @
          map (TranslateCall t) (target_languages st k) @ xs @
          [Send w (ProcessingStatus StComplete (ProcessingComplete sc fc) (Some t)
             (Some \<lparr>successfulTranslations = sc, failedTranslations = fc,
                    totalLanguages = length (uniq (map language (connections_of st k)))\<rparr>))]"
    and x: "\<forall>x\<in>set xs. job_effect x"
    unfolding assms(2) by blast
  have fx: "filter is_completion xs = []"
    using x job_effect_kinds by (auto simp: filter_empty_conv)
  have c1: "length (filter is_completion E) = 1"
    unfolding e by (simp add: fx filter_empty_conv o_def)
  have c2: "last E = Send w (ProcessingStatus StComplete (ProcessingComplete sc fc) (Some t)
                    (Some \<lparr>successfulTranslations = sc, failedTranslations = fc,
                           totalLanguages = tot\<rparr>))"
    unfolding e assms(6) total_languages[symmetric] by simp
  have c3: "sc + fc = length (target_languages st k)"
    unfolding assms(3,4,5) by (rule outcomes_split)
  show ?thesis using c1 c2 c3 by simp
qed

theorem completion_status_witness:
  "segment_accepted demo_env conference 1 (Num 1) clip ''Hello'' \<and>
   translation_outcomes demo_env conference (Num 1) ''Hello'' = [(''Spanish'', Inr ''Hola'')] \<and>
   length (filter is_completion (effects_of demo_env conference (Message 1 (AudioData (Some (Num 1)) (AudioString clip))))) = 1 \<and>
   last (effects_of demo_env conference (Message 1 (AudioData (Some (Num 1)) (AudioString clip)))) =
     Send 1 (ProcessingStatus StComplete (ProcessingComplete 1 0) (Some ''Hello'')
       (Some \<lparr>successfulTranslations = 1, failedTranslations = 0, totalLanguages = 2\<rparr>))"
proof -
  have h: "segment_accepted demo_env conference 1 (Num 1) clip ''Hello''"
    by code_simp
  have j: "translation_outcomes demo_env conference (Num 1) ''Hello'' = [(''Spanish'', Inr ''Hola'')]"
    by code_simp
  have t: "target_languages conference (Num 1) = [''Spanish'']"
    by code_simp
  have c: "''English'' \<in> language ` set (connections_of conference (Num 1))"
    by code_simp
  from completion_status_counts[OF h refl refl refl refl refl] h j t c
  show ?thesis by simp
qed

text \<open>
  C1. A segment that reaches the fan-out issues exactly one translation call per distinct
  registered language other than English. Every language whose call succeeds gets its
  record stored and its text sent to each of its open connections, whatever happens to
  the other languages; the completion status counts the failed calls, so one failure
  among N languages is reported as failed = 1 with N - 1 successes.
\<close>

theorem translation_jobs_isolated:
  assumes "segment_accepted e st w k a t"
      and "E = effects_of e st (Message w (AudioData (Some k) (AudioString a)))"
      and "st' = step e st (Message w (AudioData (Some k) (AudioString a)))"
      and "jobs = translation_outcomes e st k t"
      and "sc = length (filter (\<lambda>j. \<not> isl (snd j)) jobs)"
      and "fc = length (filter (\<lambda>j. isl (snd j)) jobs)"
  shows "filter is_translate_call E = map (TranslateCall t) (target_languages st k) \<and>
         distinct (target_languages st k) \<and>
         set (target_languages st k) = language ` set (connections_of st k) - {''English''} \<and>
         map fst jobs = target_languages st k \<and>
         (\<forall>l tt. (l, Inr tt) \<in> set jobs \<longrightarrow>
            (\<exists>rec\<in>set (translationsMap (storage st')).
               Stored rec \<in> set E \<and> eventId rec = k \<and> originalText rec = t \<and>
               translatedText rec = Some tt \<and> tr_language rec = l \<and>
               (\<forall>c\<in>set (connections_of st k). language c = l \<longrightarrow> sockets st (ws c) = OPEN \<longrightarrow>
                  Send (ws c) (TranslationMsg rec t ''English'') \<in> set E))) \<and>
         (\<exists>d. last E = Send w (ProcessingStatus StComplete (ProcessingComplete sc fc) (Some t) (Some d)) \<and>
              successfulTranslations d = sc \<and> failedTranslations d = fc) \<and>
         (fc = 1 \<longrightarrow> sc = length (target_languages st k) - 1)"
proof -
  define src where "src = \<lparr>eventId = k, originalText = t, translatedText = None, tr_language = ''English'',
                    tr_id = translationCurrentId (storage st),
                    timestamp = translation_time e (translationCurrentId (storage st))\<rparr>"
  from segment_events[OF assms(1) refl assms(4) assms(3) src_def assms(5,6)]
  obtain xs recs where
    e: "E = [Send w (ProcessingStatus StProcessing AudioReceived None None), Transcribe a,
           Stored src, Send w (ProcessingStatus StTranscribed TranscribedOk (Some t) None)] @
          map (\<lambda>c. Send (ws c) (TranslationMsg src t ''English''))
            (filter (\<lambda>c. language c = ''English'' \<and> sockets st (ws c) = OPEN) (connections_of st k)) @
          map (TranslateCall t) (target_languages st k) @ xs @
          [Send w (ProcessingStatus StComplete (ProcessingComplete sc fc) (Some t)
             (Some \<lparr>successfulTranslations = sc, failedTranslations = fc,
                    totalLanguages = length (uniq (map language (connections_of st k)))\<rparr>))]"
    and s: "translationsMap (storage st') = translationsMap (storage st) @ src # recs"
    and x: "\<forall>x\<in>set xs. job_effect x"
    and d: "\<forall>l tt. (l, Inr tt) \<in> set jobs \<longrightarrow>
           (\<exists>rec\<in>set recs. Stored rec \<in> set xs \<and> eventId rec = k \<and> originalText rec = t \<and>
              translatedText rec = Some tt \<and> tr_language rec = l \<and>
              (\<forall>c\<in>set (connections_of st k). language c = l \<longrightarrow> sockets st (ws c) = OPEN \<longrightarrow>
                 Send (ws c) (TranslationMsg rec t ''English'') \<in> set xs))"
    unfolding assms(2) by blast
  have fx: "filter is_translate_call xs = []"
    using x job_effect_kinds by (auto simp: filter_empty_conv)
  have c1: "filter is_translate_call E = map (TranslateCall t) (target_languages st k)"
    unfolding e by (simp add: fx filter_map o_def)
  have sub: "set xs \<subseteq> set E" "set recs \<subseteq> set (translationsMap (storage st'))"
    unfolding e s by auto
  have c2: "\<forall>l tt. (l, Inr tt) \<in> set jobs \<longrightarrow>
            (\<exists>rec\<in>set (translationsMap (storage st')).
               Stored rec \<in> set E \<and> eventId rec = k \<and> originalText rec = t \<and>
               translatedText rec = Some tt \<and> tr_language rec = l \<and>
               (\<forall>c\<in>set (connections_of st k). language c = l \<longrightarrow> sockets st (ws c) = OPEN \<longrightarrow>
                  Send (ws c) (TranslationMsg rec t ''English'') \<in> set E))"
  proof (intro allI impI)
    fix l tt assume "(l, Inr tt) \<in> set jobs"
    with d obtain rec where r: "rec \<in> set recs" "Stored rec \<in> set xs" "eventId rec = k"
      "originalText rec = t" "translatedText rec = Some tt" "tr_language rec = l"
      "\<forall>c\<in>set (connections_of st k). language c = l \<longrightarrow> sockets st (ws c) = OPEN \<longrightarrow>
                 Send (ws c) (TranslationMsg rec t ''English'') \<in> set xs" by blast
    show "\<exists>rec\<in>set (translationsMap (storage st')).
               Stored rec \<in> set E \<and> eventId rec = k \<and> originalText rec = t \<and>
               translatedText rec = Some tt \<and> tr_language rec = l \<and>
               (\<forall>c\<in>set (connections_of st k). language c = l \<longrightarrow> sockets st (ws c) = OPEN \<longrightarrow>
                  Send (ws c) (TranslationMsg rec t ''English'') \<in> set E)"
      apply (rule bexI[of _ rec])
      using r sub by auto
  qed
  have c3: "\<exists>d. last E = Send w (ProcessingStatus StComplete (ProcessingComplete sc fc) (Some t) (Some d)) \<and>
              successfulTranslations d = sc \<and> failedTranslations d = fc"
    unfolding e by simp
  have "sc + fc = length (target_languages st k)"
    unfolding assms(4,5,6) by (rule outcomes_split)
  then have c4: "fc = 1 \<longrightarrow> sc = length (target_languages st k) - 1" by auto
  show ?thesis
    using c1 c2 c3 c4 target_languages_set[of st k] assms(4) by simp
qed

theorem translation_jobs_witness:
  "segment_accepted demo_env summit 1 (Num 1) clip ''Hello'' \<and>
   target_languages summit (Num 1) = [''Spanish'', ''French'', ''Klingon''] \<and>
   translation_outcomes demo_env summit (Num 1) ''Hello'' =
     [(''Spanish'', Inr ''Hola''), (''French'', Inr ''Hola''),
      (''Klingon'', Inl ''Failed to translate text: unsupported language'')] \<and>
   filter is_translate_call (effects_of demo_env summit (Message 1 (AudioData (Some (Num 1)) (AudioString clip)))) =
     map (TranslateCall ''Hello'') (target_languages summit (Num 1)) \<and>
   last (effects_of demo_env summit (Message 1 (AudioData (Some (Num 1)) (AudioString clip)))) =
      Send 1 (ProcessingStatus StComplete (ProcessingComplete 2 1) (Some ''Hello'')
        (Some \<lparr>successfulTranslations = 2, failedTranslations = 1, totalLanguages = 4\<rparr>))"
proof -
  have h: "segment_accepted demo_env summit 1 (Num 1) clip ''Hello''"
    by code_simp
  have j: "translation_outcomes demo_env summit (Num 1) ''Hello'' =
     [(''Spanish'', Inr ''Hola''), (''French'', Inr ''Hola''),
      (''Klingon'', Inl ''Failed to translate text: unsupported language'')]"
    by code_simp
  have t: "target_languages summit (Num 1) = [''Spanish'', ''French'', ''Klingon'']"
    by code_simp
  have l: "last (effects_of demo_env summit (Message 1 (AudioData (Some (Num 1)) (AudioString clip)))) =
      Send 1 (ProcessingStatus StComplete (ProcessingComplete 2 1) (Some ''Hello'')
        (Some \<lparr>successfulTranslations = 2, failedTranslations = 1, totalLanguages = 4\<rparr>))"
    by code_simp
  from translation_jobs_isolated[OF h refl refl refl refl refl]
  have c: "filter is_translate_call (effects_of demo_env summit (Message 1 (AudioData (Some (Num 1)) (AudioString clip)))) =
     map (TranslateCall ''Hello'') (target_languages summit (Num 1))"
    by (rule conjunct1)
  show ?thesis using h t j c l by blast
qed

lemma outcome_is_target:
  "(l, r) \<in> set (translation_outcomes e st k t) \<Longrightarrow> l \<in> set (target_languages st k)"
  by (metis outcomes_languages image_eqI fst_conv set_map)

text \<open>
  C6. In a segment fan-out, every open connection registered in English is sent the
  translation message of the source record (original text, no translated text); every
  open connection of a target language whose translation succeeds is sent the message
  with the translated text; an audio message is sent only to an open, audio-enabled
  connection of a target language, and such a connection does get one when the synthesis
  of the text succeeds. The witness is the scenario of A (English), B (Spanish, audio)
  and C (Spanish, no audio).
\<close>

theorem text_and_audio_routing:
  assumes "segment_accepted e st w k a t"
      and "E = effects_of e st (Message w (AudioData (Some k) (AudioString a)))"
      and "jobs = translation_outcomes e st k t"
      and "conns = connections_of st k"
  shows "(\<exists>src. originalText src = t \<and> translatedText src = None \<and> tr_language src = ''English'' \<and>
            (\<forall>c\<in>set conns. language c = ''English'' \<longrightarrow> sockets st (ws c) = OPEN \<longrightarrow>
               Send (ws c) (TranslationMsg src t ''English'') \<in> set E)) \<and>
         (\<forall>l tt. (l, Inr tt) \<in> set jobs \<longrightarrow>
            (\<exists>rec. originalText rec = t \<and> translatedText rec = Some tt \<and> tr_language rec = l \<and>
               (\<forall>c\<in>set conns. language c = l \<longrightarrow> sockets st (ws c) = OPEN \<longrightarrow>
                  Send (ws c) (TranslationMsg rec t ''English'') \<in> set E))) \<and>
         (\<forall>w' au x. Send w' (AudioTranslation au x) \<in> set E \<longrightarrow>
            (\<exists>c\<in>set conns. w' = ws c \<and> enableAudio c \<and> language c \<noteq> ''English'' \<and>
               sockets st (ws c) = OPEN \<and> (language c, Inr x) \<in> set jobs)) \<and>
         (\<forall>l tt. (l, Inr tt) \<in> set jobs \<longrightarrow> (\<forall>n. \<exists>au. speech e n ''nova'' tt = Inr au) \<longrightarrow>
            (\<forall>c\<in>set conns. language c = l \<longrightarrow> sockets st (ws c) = OPEN \<longrightarrow> enableAudio c \<longrightarrow>
               (\<exists>au. Send (ws c) (AudioTranslation au tt) \<in> set E)))"
proof -
  define src where "src = \<lparr>eventId = k, originalText = t, translatedText = None, tr_language = ''English'',
                    tr_id = translationCurrentId (storage st),
                    timestamp = translation_time e (translationCurrentId (storage st))\<rparr>"
  from segment_events[OF assms(1) assms(4) assms(3) refl src_def refl refl]
  obtain xs recs where
    e: "E = [Send w (ProcessingStatus StProcessing AudioReceived None None), Transcribe a,
           Stored src, Send w (ProcessingStatus StTranscribed TranscribedOk (Some t) None)] @
          map (\<lambda>c. Send (ws c) (TranslationMsg src t ''English''))
            (filter (\<lambda>c. language c = ''English'' \<and> sockets st (ws c) = OPEN) conns) @
          map (TranslateCall t) (target_languages st k) @ xs @
          [Send w (ProcessingStatus StComplete
             (ProcessingComplete (length (filter (\<lambda>j. \<not> isl (snd j)) jobs))
                (length (filter (\<lambda>j. isl (snd j)) jobs))) (Some t)
             (Some \<lparr>successfulTranslations = length (filter (\<lambda>j. \<not> isl (snd j)) jobs),
                    failedTranslations = length (filter (\<lambda>j. isl (snd j)) jobs),
                    totalLanguages = length (uniq (map language conns))\<rparr>))]"
    and d: "\<forall>l tt. (l, Inr tt) \<in> set jobs \<longrightarrow>
           (\<exists>rec\<in>set recs. Stored rec \<in> set xs \<and> eventId rec = k \<and> originalText rec = t \<and>
              translatedText rec = Some tt \<and> tr_language rec = l \<and>
              (\<forall>c\<in>set conns. language c = l \<longrightarrow> sockets st (ws c) = OPEN \<longrightarrow>
                 Send (ws c) (TranslationMsg rec t ''English'') \<in> set xs))"
    and au: "\<forall>w a x. Send w (AudioTranslation a x) \<in> set xs \<longrightarrow>
           (\<exists>c\<in>set conns. w = ws c \<and> enableAudio c \<and> sockets st (ws c) = OPEN \<and>
              (language c, Inr x) \<in> set jobs)"
    and sp: "\<forall>l tt. (l, Inr tt) \<in> set jobs \<longrightarrow> (\<forall>n. \<exists>a. speech e n ''nova'' tt = Inr a) \<longrightarrow>
           (\<forall>c\<in>set conns. language c = l \<longrightarrow> sockets st (ws c) = OPEN \<longrightarrow> enableAudio c \<longrightarrow>
              (\<exists>a. Send (ws c) (AudioTranslation a tt) \<in> set xs))"
    unfolding assms(2) by blast
  have sub: "set xs \<subseteq> set E" unfolding e by auto
  have p1: "\<exists>src. originalText src = t \<and> translatedText src = None \<and> tr_language src = ''English'' \<and>
            (\<forall>c\<in>set conns. language c = ''English'' \<longrightarrow> sockets st (ws c) = OPEN \<longrightarrow>
               Send (ws c) (TranslationMsg src t ''English'') \<in> set E)"
    apply (rule exI[of _ src])
    unfolding e by (auto simp: src_def)
  have p2: "\<forall>l tt. (l, Inr tt) \<in> set jobs \<longrightarrow>
            (\<exists>rec. originalText rec = t \<and> translatedText rec = Some tt \<and> tr_language rec = l \<and>
               (\<forall>c\<in>set conns. language c = l \<longrightarrow> sockets st (ws c) = OPEN \<longrightarrow>
                  Send (ws c) (TranslationMsg rec t ''English'') \<in> set E))"
  proof (intro allI impI)
    fix l tt assume "(l, Inr tt) \<in> set jobs"
    with d obtain rec where r: "originalText rec = t" "translatedText rec = Some tt" "tr_language rec = l"
      "\<forall>c\<in>set conns. language c = l \<longrightarrow> sockets st (ws c) = OPEN \<longrightarrow>
                 Send (ws c) (TranslationMsg rec t ''English'') \<in> set xs" by blast
    show "\<exists>rec. originalText rec = t \<and> translatedText rec = Some tt \<and> tr_language rec = l \<and>
               (\<forall>c\<in>set conns. language c = l \<longrightarrow> sockets st (ws c) = OPEN \<longrightarrow>
                  Send (ws c) (TranslationMsg rec t ''English'') \<in> set E)"
      apply (rule exI[of _ rec])
      using r sub by auto
  qed
  have p3: "\<forall>w' au x. Send w' (AudioTranslation au x) \<in> set E \<longrightarrow>
            (\<exists>c\<in>set conns. w' = ws c \<and> enableAudio c \<and> language c \<noteq> ''English'' \<and>
               sockets st (ws c) = OPEN \<and> (language c, Inr x) \<in> set jobs)"
  proof (intro allI impI)
    fix w' au' x assume "Send w' (AudioTranslation au' x) \<in> set E"
    then have "Send w' (AudioTranslation au' x) \<in> set xs" unfolding e by auto
    with au obtain c where c: "c \<in> set conns" "w' = ws c" "enableAudio c" "sockets st (ws c) = OPEN"
      "(language c, Inr x) \<in> set jobs" by blast
    from c(5) have "language c \<in> set (target_languages st k)"
      unfolding assms(3) by (rule outcome_is_target)
    then have "language c \<noteq> ''English''" by (simp add: target_languages_set)
    with c show "\<exists>c\<in>set conns. w' = ws c \<and> enableAudio c \<and> language c \<noteq> ''English'' \<and>
               sockets st (ws c) = OPEN \<and> (language c, Inr x) \<in> set jobs" by blast
  qed
  have p4: "\<forall>l tt. (l, Inr tt) \<in> set jobs \<longrightarrow> (\<forall>n. \<exists>au. speech e n ''nova'' tt = Inr au) \<longrightarrow>
            (\<forall>c\<in>set conns. language c = l \<longrightarrow> sockets st (ws c) = OPEN \<longrightarrow> enableAudio c \<longrightarrow>
               (\<exists>au. Send (ws c) (AudioTranslation au tt) \<in> set E))"
    using sp sub by (meson subsetD)
  show ?thesis using p1 p2 p3 p4 by blast
qed

theorem text_and_audio_routing_witness:
  "segment_accepted demo_env conference 1 (Num 1) clip ''Hello'' \<and>
   translation_outcomes demo_env conference (Num 1) ''Hello'' = [(''Spanish'', Inr ''Hola'')] \<and>
   (\<exists>c\<in>set (connections_of conference (Num 1)). 2 = ws c \<and> enableAudio c \<and>
       language c \<noteq> ''English'' \<and> sockets conference (ws c) = OPEN) \<and>
   filter (\<lambda>x. \<not> is_translate_call x \<and> \<not> is_stored x \<and> \<not> is_synthesis x)
     (effects_of demo_env conference (Message 1 (AudioData (Some (Num 1)) (AudioString clip)))) =
     [Send 1 (ProcessingStatus StProcessing AudioReceived None None),
      Transcribe clip,
      Send 1 (ProcessingStatus StTranscribed TranscribedOk (Some ''Hello'') None),
      Send 1 (TranslationMsg
                \<lparr>eventId = Num 1, originalText = ''Hello'', translatedText = None,
                 tr_language = ''English'', tr_id = 1, timestamp = 1\<rparr> ''Hello'' ''English''),
      Send 2 (TranslationMsg
                \<lparr>eventId = Num 1, originalText = ''Hello'', translatedText = Some ''Hola'',
                 tr_language = ''Spanish'', tr_id = 2, timestamp = 2\<rparr> ''Hello'' ''English''),
      Send 2 (AudioTranslation ''UklGRg=='' ''Hola''),
      Send 3 (TranslationMsg
                \<lparr>eventId = Num 1, originalText = ''Hello'', translatedText = Some ''Hola'',
                 tr_language = ''Spanish'', tr_id = 2, timestamp = 2\<rparr> ''Hello'' ''English''),
      Send 1 (ProcessingStatus StComplete (ProcessingComplete 1 0) (Some ''Hello'')
        (Some \<lparr>successfulTranslations = 1, failedTranslations = 0, totalLanguages = 2\<rparr>))]"
proof -
  have h: "segment_accepted demo_env conference 1 (Num 1) clip ''Hello''"
    by code_simp
  have j: "translation_outcomes demo_env conference (Num 1) ''Hello'' = [(''Spanish'', Inr ''Hola'')]"
    by code_simp
  have l: "filter (\<lambda>x. \<not> is_translate_call x \<and> \<not> is_stored x \<and> \<not> is_synthesis x)
     (effects_of demo_env conference (Message 1 (AudioData (Some (Num 1)) (AudioString clip)))) =
     [Send 1 (ProcessingStatus StProcessing AudioReceived None None),
      Transcribe clip,
      Send 1 (ProcessingStatus StTranscribed TranscribedOk (Some ''Hello'') None),
      Send 1 (TranslationMsg
                \<lparr>eventId = Num 1, originalText = ''Hello'', translatedText = None,
                 tr_language = ''English'', tr_id = 1, timestamp = 1\<rparr> ''Hello'' ''English''),
      Send 2 (TranslationMsg
                \<lparr>eventId = Num 1, originalText = ''Hello'', translatedText = Some ''Hola'',
                 tr_language = ''Spanish'', tr_id = 2, timestamp = 2\<rparr> ''Hello'' ''English''),
      Send 2 (AudioTranslation ''UklGRg=='' ''Hola''),
      Send 3 (TranslationMsg
                \<lparr>eventId = Num 1, originalText = ''Hello'', translatedText = Some ''Hola'',
                 tr_language = ''Spanish'', tr_id = 2, timestamp = 2\<rparr> ''Hello'' ''English''),
      Send 1 (ProcessingStatus StComplete (ProcessingComplete 1 0) (Some ''Hello'')
        (Some \<lparr>successfulTranslations = 1, failedTranslations = 0, totalLanguages = 2\<rparr>))]"
    by code_simp
  have m: "Send 2 (AudioTranslation ''UklGRg=='' ''Hola'') \<in>
             set (effects_of demo_env conference (Message 1 (AudioData (Some (Num 1)) (AudioString clip))))"
    by code_simp
  from text_and_audio_routing[OF h refl refl refl] m
  have c: "\<exists>c\<in>set (connections_of conference (Num 1)). 2 = ws c \<and> enableAudio c \<and>
       language c \<noteq> ''English'' \<and> sockets conference (ws c) = OPEN"
    by blast
  show ?thesis using h j c l by blast
qed

text \<open>
  C2 as stated fails: with two audio-enabled Spanish connections, Spanish is the only
  target language and the synthesis service is called twice for it.
\<close>

theorem synthesis_once_per_language_counterexample:
  "segment_accepted demo_env duet 1 (Num 1) clip ''Hello'' \<and>
   target_languages duet (Num 1) = [''Spanish''] \<and>
   filter is_synthesis (effects_of demo_env duet (Message 1 (AudioData (Some (Num 1)) (AudioString clip)))) =
     [Synthesize ''Hola'' ''nova'' ''sp'', Synthesize ''Hola'' ''nova'' ''sp'']"
  by code_simp

text \<open>
  C2, amended. In a segment fan-out the synthesis service is called once for each open,
  audio-enabled connection of each target language whose translation succeeded (so as
  often per language as it has such connections). Whatever the synthesis calls return,
  every open connection of such a language is sent the translated text, and the
  completion status counts the language as succeeded: its succeeded and failed counts are
  those of the translation calls alone.
\<close>

theorem synthesis_per_audio_connection:
  assumes "segment_accepted e st w k a t"
      and "E = effects_of e st (Message w (AudioData (Some k) (AudioString a)))"
      and "jobs = translation_outcomes e st k t"
      and "conns = connections_of st k"
  shows "length (filter is_synthesis E) =
           sum_list (map (\<lambda>j. if isl (snd j) then 0
                               else length (filter (\<lambda>c. language c = fst j \<and>
                                                        sockets st (ws c) = OPEN \<and> enableAudio c) conns))
                      jobs) \<and>
         (\<forall>l tt. (l, Inr tt) \<in> set jobs \<longrightarrow>
            (\<exists>rec. translatedText rec = Some tt \<and> tr_language rec = l \<and>
               (\<forall>c\<in>set conns. language c = l \<longrightarrow> sockets st (ws c) = OPEN \<longrightarrow>
                  Send (ws c) (TranslationMsg rec t ''English'') \<in> set E))) \<and>
         (\<exists>d. last E = Send w (ProcessingStatus StComplete
                    (ProcessingComplete (length (filter (\<lambda>j. \<not> isl (snd j)) jobs))
                       (length (filter (\<lambda>j. isl (snd j)) jobs))) (Some t) (Some d)))"
proof -
  define src where "src = \<lparr>eventId = k, originalText = t, translatedText = None, tr_language = ''English'',
                    tr_id = translationCurrentId (storage st),
                    timestamp = translation_time e (translationCurrentId (storage st))\<rparr>"
  from segment_events[OF assms(1) assms(4) assms(3) refl src_def refl refl]
  obtain xs recs where
    e: "E = [Send w (ProcessingStatus StProcessing AudioReceived None None), Transcribe a,
           Stored src, Send w (ProcessingStatus StTranscribed TranscribedOk (Some t) None)] @
          map (\<lambda>c. Send (ws c) (TranslationMsg src t ''English''))
            (filter (\<lambda>c. language c = ''English'' \<and> sockets st (ws c) = OPEN) conns) @
          map (TranslateCall t) (target_languages st k) @ xs @
          [Send w (ProcessingStatus StComplete
             (ProcessingComplete (length (filter (\<lambda>j. \<not> isl (snd j)) jobs))
                (length (filter (\<lambda>j. isl (snd j)) jobs))) (Some t)
             (Some \<lparr>successfulTranslations = length (filter (\<lambda>j. \<not> isl (snd j)) jobs),
                    failedTranslations = length (filter (\<lambda>j. isl (snd j)) jobs),
                    totalLanguages = length (uniq (map language conns))\<rparr>))]"
    and d: "\<forall>l tt. (l, Inr tt) \<in> set jobs \<longrightarrow>
           (\<exists>rec\<in>set recs. Stored rec \<in> set xs \<and> eventId rec = k \<and> originalText rec = t \<and>
              translatedText rec = Some tt \<and> tr_language rec = l \<and>
              (\<forall>c\<in>set conns. language c = l \<longrightarrow> sockets st (ws c) = OPEN \<longrightarrow>
                 Send (ws c) (TranslationMsg rec t ''English'') \<in> set xs))"
    and n: "length (filter is_synthesis xs) =
          sum_list (map (\<lambda>j. if isl (snd j) then 0
                              else length (filter (\<lambda>c. language c = fst j \<and> sockets st (ws c) = OPEN \<and>
                                                       enableAudio c) conns)) jobs)"
    unfolding assms(2) by blast
  have sub: "set xs \<subseteq> set E" unfolding e by auto
  have p1: "length (filter is_synthesis E) = length (filter is_synthesis xs)"
    unfolding e by (simp add: filter_map o_def)
  have p2: "\<forall>l tt. (l, Inr tt) \<in> set jobs \<longrightarrow>
            (\<exists>rec. translatedText rec = Some tt \<and> tr_language rec = l \<and>
               (\<forall>c\<in>set conns. language c = l \<longrightarrow> sockets st (ws c) = OPEN \<longrightarrow>
                  Send (ws c) (TranslationMsg rec t ''English'') \<in> set E))"
  proof (intro allI impI)
    fix l tt assume "(l, Inr tt) \<in> set jobs"
    with d obtain rec where r: "translatedText rec = Some tt" "tr_language rec = l"
      "\<forall>c\<in>set conns. language c = l \<longrightarrow> sockets st (ws c) = OPEN \<longrightarrow>
                 Send (ws c) (TranslationMsg rec t ''English'') \<in> set xs" by blast
    show "\<exists>rec. translatedText rec = Some tt \<and> tr_language rec = l \<and>
               (\<forall>c\<in>set conns. language c = l \<longrightarrow> sockets st (ws c) = OPEN \<longrightarrow>
                  Send (ws c) (TranslationMsg rec t ''English'') \<in> set E)"
      apply (rule exI[of _ rec])
      using r sub by auto
  qed
  have p3: "\<exists>d. last E = Send w (ProcessingStatus StComplete
                    (ProcessingComplete (length (filter (\<lambda>j. \<not> isl (snd j)) jobs))
                       (length (filter (\<lambda>j. isl (snd j)) jobs))) (Some t) (Some d))"
    unfolding e by simp
  show ?thesis using p1 n p2 p3 by simp
qed

theorem synthesis_failure_witness:
  "segment_accepted mute_env duet 1 (Num 1) clip ''Hello'' \<and>
   translation_outcomes mute_env duet (Num 1) ''Hello'' = [(''Spanish'', Inr ''Hola'')] \<and>
   length (filter is_synthesis (effects_of mute_env duet (Message 1 (AudioData (Some (Num 1)) (AudioString clip))))) =
     sum_list (map (\<lambda>j. if isl (snd j) then 0
                         else length (filter (\<lambda>c. language c = fst j \<and>
                                sockets duet (ws c) = OPEN \<and> enableAudio c)
                                (connections_of duet (Num 1))))
                (translation_outcomes mute_env duet (Num 1) ''Hello'')) \<and>
   filter (\<lambda>x. \<not> is_translate_call x \<and> \<not> is_stored x)
     (effects_of mute_env duet (Message 1 (AudioData (Some (Num 1)) (AudioString clip)))) =
     [Send 1 (ProcessingStatus StProcessing AudioReceived None None),
      Transcribe clip,
      Send 1 (ProcessingStatus StTranscribed TranscribedOk (Some ''Hello'') None),
      Send 1 (TranslationMsg
                \<lparr>eventId = Num 1, originalText = ''Hello'', translatedText = None,
                 tr_language = ''English'', tr_id = 1, timestamp = 1\<rparr> ''Hello'' ''English''),
      Send 2 (TranslationMsg
                \<lparr>eventId = Num 1, originalText = ''Hello'', translatedText = Some ''Hola'',
                 tr_language = ''Spanish'', tr_id = 2, timestamp = 2\<rparr> ''Hello'' ''English''),
      Synthesize ''Hola'' ''nova'' ''sp'',
      Send 3 (TranslationMsg
                \<lparr>eventId = Num 1, originalText = ''Hello'', translatedText = Some ''Hola'',
                 tr_language = ''Spanish'', tr_id = 2, timestamp = 2\<rparr> ''Hello'' ''English''),
      Synthesize ''Hola'' ''nova'' ''sp'',
      Send 1 (ProcessingStatus StComplete (ProcessingComplete 1 0) (Some ''Hello'')
        (Some \<lparr>successfulTranslations = 1, failedTranslations = 0, totalLanguages = 2\<rparr>))]"
proof -
  have h: "segment_accepted mute_env duet 1 (Num 1) clip ''Hello''"
    by code_simp
  have j: "translation_outcomes mute_env duet (Num 1) ''Hello'' = [(''Spanish'', Inr ''Hola'')]"
    by code_simp
  have l: "filter (\<lambda>x. \<not> is_translate_call x \<and> \<not> is_stored x)
     (effects_of mute_env duet (Message 1 (AudioData (Some (Num 1)) (AudioString clip)))) =
     [Send 1 (ProcessingStatus StProcessing AudioReceived None None),
      Transcribe clip,
      Send 1 (ProcessingStatus StTranscribed TranscribedOk (Some ''Hello'') None),
      Send 1 (TranslationMsg
                \<lparr>eventId = Num 1, originalText = ''Hello'', translatedText = None,
                 tr_language = ''English'', tr_id = 1, timestamp = 1\<rparr> ''Hello'' ''English''),
      Send 2 (TranslationMsg
                \<lparr>eventId = Num 1, originalText = ''Hello'', translatedText = Some ''Hola'',
                 tr_language = ''Spanish'', tr_id = 2, timestamp = 2\<rparr> ''Hello'' ''English''),
      Synthesize ''Hola'' ''nova'' ''sp'',
      Send 3 (TranslationMsg
                \<lparr>eventId = Num 1, originalText = ''Hello'', translatedText = Some ''Hola'',
                 tr_language = ''Spanish'', tr_id = 2, timestamp = 2\<rparr> ''Hello'' ''English''),
      Synthesize ''Hola'' ''nova'' ''sp'',
      Send 1 (ProcessingStatus StComplete (ProcessingComplete 1 0) (Some ''Hello'')
        (Some \<lparr>successfulTranslations = 1, failedTranslations = 0, totalLanguages = 2\<rparr>))]"
    by code_simp
  from synthesis_per_audio_connection[OF h refl refl refl]
  have c: "length (filter is_synthesis (effects_of mute_env duet (Message 1 (AudioData (Some (Num 1)) (AudioString clip))))) =
     sum_list (map (\<lambda>j. if isl (snd j) then 0
                         else length (filter (\<lambda>c. language c = fst j \<and>
                                sockets duet (ws c) = OPEN \<and> enableAudio c)
                                (connections_of duet (Num 1))))
                (translation_outcomes mute_env duet (Num 1) ''Hello''))"
    by (rule conjunct1)
  show ?thesis using h j c l by blast
qed

subsection \<open>Translation fallback and rejected segments\<close>



text \<open>
  C10. When the translation service answers and the content of its first choice is null
  or empty, \<open>translateText\<close> returns the input text. The language job then succeeds,
  stores a record whose translated text is the source text, and sends it to the open
  connections of the language.
\<close>

theorem empty_translation_falls_back_to_source:
  assumes "chat e n text lang = Inr (content # rest)"
      and "content = None \<or> content = Some []"
  shows "translateText e n text lang = Inr text \<and>
         (\<forall>k conns st res st'.
            language_job e k text conns (lang, translateText e n text lang) st = (res, st') \<longrightarrow>
            success res \<and>
            (\<exists>rec\<in>set (translationsMap (storage st')).
               originalText rec = text \<and> translatedText rec = Some text \<and> tr_language rec = lang \<and>
               (\<forall>c\<in>set conns. language c = lang \<longrightarrow> sockets st (ws c) = OPEN \<longrightarrow>
                  Send (ws c) (TranslationMsg rec text ''English'') \<in> set (trace st'))))"
proof -
  have t: "translateText e n text lang = Inr text"
    using assms by (auto simp: translateText_def)
  have "success res \<and>
            (\<exists>rec\<in>set (translationsMap (storage st')).
               originalText rec = text \<and> translatedText rec = Some text \<and> tr_language rec = lang \<and>
               (\<forall>c\<in>set conns. language c = lang \<longrightarrow> sockets st (ws c) = OPEN \<longrightarrow>
                  Send (ws c) (TranslationMsg rec text ''English'') \<in> set (trace st')))"
    if j: "language_job e k text conns (lang, Inr text) st = (res, st')" for k conns st res st'
  proof -
    from job_succeeded[OF j] obtain rec xs where r:
      "res = \<lparr>job_language = lang, success = True, job_error = None\<rparr>"
      "trace st' = trace st @ Stored rec # xs"
      "translationsMap (storage st') = translationsMap (storage st) @ [rec]"
      "originalText rec = text" "translatedText rec = Some text" "tr_language rec = lang"
      "\<forall>c\<in>set conns. language c = lang \<longrightarrow> sockets st (ws c) = OPEN \<longrightarrow>
            Send (ws c) (TranslationMsg rec text ''English'') \<in> set xs"
      by blast
    show ?thesis
      apply (rule conjI)
       apply (simp add: r(1))
      apply (rule bexI[of _ rec])
      using r by auto
  qed
  with t show ?thesis by simp
qed

theorem empty_translation_witness:
  "chat silent_env 1 ''Hello'' ''Spanish'' = Inr [None] \<and>
   translateText silent_env 1 ''Hello'' ''Spanish'' = Inr ''Hello'' \<and>
   filter (\<lambda>x. is_stored x) (effects_of silent_env conference
       (Message 1 (AudioData (Some (Num 1)) (AudioString clip)))) =
     [Stored \<lparr>eventId = Num 1, originalText = ''Hello'', translatedText = None,
              tr_language = ''English'', tr_id = 1, timestamp = 1\<rparr>,
      Stored \<lparr>eventId = Num 1, originalText = ''Hello'', translatedText = Some ''Hello'',
              tr_language = ''Spanish'', tr_id = 2, timestamp = 2\<rparr>]"
proof -
  have h: "chat silent_env 1 ''Hello'' ''Spanish'' = Inr [None]"
    by (simp add: silent_env_def)
  have l: "filter (\<lambda>x. is_stored x) (effects_of silent_env conference
       (Message 1 (AudioData (Some (Num 1)) (AudioString clip)))) =
     [Stored \<lparr>eventId = Num 1, originalText = ''Hello'', translatedText = None,
              tr_language = ''English'', tr_id = 1, timestamp = 1\<rparr>,
      Stored \<lparr>eventId = Num 1, originalText = ''Hello'', translatedText = Some ''Hello'',
              tr_language = ''Spanish'', tr_id = 2, timestamp = 2\<rparr>]"
    by code_simp
  from empty_translation_falls_back_to_source[OF h]
  have c: "translateText silent_env 1 ''Hello'' ''Spanish'' = Inr ''Hello''" by simp
  show ?thesis using h c l by blast
qed

text \<open>
  C7. When the transcription of an authorized segment is empty or white space only, the
  handler does nothing beyond the acknowledgment to the sender, the transcription call
  (when the payload was large enough to be sent to the service) and one completion status
  "no speech detected" to the sender: no record is created, nothing is sent to any other
  connection, and the registry is unchanged.
\<close>

theorem blank_transcription_short_circuit:
  assumes "getEvent (storage st) k \<noteq> None"
      and "authorized st k (v_sessionId (vars st w))"
      and "50 \<le> length a"
      and "transcribeAudio e (calls st) a = (called, Inr t)"
      and "blank t"
      and "st' = step e st (Message w (AudioData (Some k) (AudioString a)))"
  shows "effects_of e st (Message w (AudioData (Some k) (AudioString a))) =
           Send w (ProcessingStatus StProcessing AudioReceived None None) #
           (if called then [Transcribe a] else []) @
           [Send w (ProcessingStatus StComplete NoSpeechDetected None None)] \<and>
         storage st' = storage st \<and> activeConnections st' = activeConnections st \<and>
         sockets st' = sockets st"
proof -
  from assms(3) have ne: "a \<noteq> []" by auto
  have s: "st' = process_audio e w k a st"
    using assms(1,2,6) ne by (auto simp: handle_audio_data_def)
  show ?thesis
    unfolding effects_of_def assms(6)[symmetric] s
    using assms(3,4,5)
    by (auto simp: process_audio_def call_transcribe_def)
qed

theorem blank_transcription_witness:
  "getEvent (storage conference) (Num 1) \<noteq> None \<and>
   authorized conference (Num 1) (v_sessionId (vars conference 1)) \<and>
   transcribeAudio hush_env (calls conference) clip = (True, Inr ''   '') \<and> blank ''   '' \<and>
   effects_of hush_env conference (Message 1 (AudioData (Some (Num 1)) (AudioString clip))) =
     [Send 1 (ProcessingStatus StProcessing AudioReceived None None), Transcribe clip,
      Send 1 (ProcessingStatus StComplete NoSpeechDetected None None)] \<and>
   storage (step hush_env conference (Message 1 (AudioData (Some (Num 1)) (AudioString clip))))
     = storage conference"
proof -
  have h1: "getEvent (storage conference) (Num 1) \<noteq> None" by code_simp
  have h2: "authorized conference (Num 1) (v_sessionId (vars conference 1))" by code_simp
  have h3: "50 \<le> length clip" by code_simp
  have h4: "transcribeAudio hush_env (calls conference) clip = (True, Inr ''   '')" by code_simp
  have h5: "blank ''   ''" by code_simp
  from blank_transcription_short_circuit[OF h1 h2 h3 h4 h5 refl] h1 h2 h4 h5
  show ?thesis by simp
qed







end
